theory Spec2Isabelle
  imports Main "HOL-Library.Word" "HOL-Library.Monad_Syntax"
begin

unbundle bit_operations_syntax

section \<open>Wide strings and C string primitives\<close>

text \<open>
  The writer of \<^verbatim>\<open>dlls/msxml3/mxwriter.c\<close> works on \<^verbatim>\<open>WCHAR\<close> (16-bit) text and on byte
  buffers. A \<^verbatim>\<open>const WCHAR *\<close> argument is modelled as an optional list: \<open>None\<close> is the
  NULL pointer, \<open>Some xs\<close> is a pointer to the units \<open>xs\<close> followed by the terminating NUL
  of the object pointed to. The units \<open>xs\<close> may themselves contain NUL (a BSTR or an
  explicit-length span may). Reading at index \<open>length xs\<close> yields the terminator; reading
  beyond it leaves the object, which C leaves undefined: such a read is the value
  \<open>None\<close> of the operation that performs it.
\<close>

type_synonym WCHAR = "16 word"
type_synonym BYTE = "8 word"
type_synonym LPCWSTR = "WCHAR list option"

definition wstr :: "string \<Rightarrow> WCHAR list" where
  "wstr s = map of_char s"

text \<open>\<^verbatim>\<open>strlenW\<close>: the number of units before the first NUL.\<close>

definition strlenW :: "WCHAR list \<Rightarrow> nat" where
  "strlenW s = length (takeWhile (\<lambda>c. c \<noteq> 0) s)"

section \<open>The escaper: \<^verbatim>\<open>get_escaped_string\<close>\<close>

definition ltW :: "WCHAR list" where "ltW = wstr ''&lt;''"
definition ampW :: "WCHAR list" where "ampW = wstr ''&amp;''"
definition quotW :: "WCHAR list" where "quotW = wstr ''&quot;''"
definition gtW :: "WCHAR list" where "gtW = wstr ''&gt;''"

definition default_alloc :: int where "default_alloc = 100"
definition grow_thresh :: int where "grow_thresh = 10"

text \<open>
  The loop \<^verbatim>\<open>while (*str && p)\<close>. The arguments are the caller's \<^verbatim>\<open>*len\<close>, the units at
  \<^verbatim>\<open>str\<close>, the counter \<^verbatim>\<open>p\<close>, the units stored between \<^verbatim>\<open>ret\<close> and \<^verbatim>\<open>ptr\<close>, and
  \<^verbatim>\<open>conv_len\<close>. The empty list is the pointer standing on the terminator. The result is
  the final position of \<^verbatim>\<open>str\<close>, the output and the final capacity.
\<close>

fun escape_loop ::
  "int \<Rightarrow> WCHAR list \<Rightarrow> int \<Rightarrow> WCHAR list \<Rightarrow> int \<Rightarrow> WCHAR list \<times> WCHAR list \<times> int" where
  "escape_loop len [] p ret conv_len = ([], ret, conv_len)"
| "escape_loop len (c # str) p ret conv_len =
     (if c \<noteq> 0 \<and> p \<noteq> 0 then
        escape_loop len str (if len \<noteq> - 1 then p - 1 else p)
          (ret @ (if c = 0x3C then ltW
                  else if c = 0x26 then ampW
                  else if c = 0x22 then quotW
                  else if c = 0x3E then gtW
                  else [c]))
          (if int (length ret) > conv_len - grow_thresh then conv_len * 2 else conv_len)
      else (c # str, ret, conv_len))"

text \<open>
  What the call leaves behind: the units written to the returned buffer, the value of
  \<^verbatim>\<open>*len\<close> on return, and how far \<^verbatim>\<open>str\<close> advanced. The terminator is stored by
  \<^verbatim>\<open>*++ptr = 0\<close>, one unit after the end of the output, so the unit in between is never
  written; callers that pass the returned length do not read it.
\<close>

record escaped_string =
  escaped :: "WCHAR list"
  escaped_len :: int
  str_advance :: nat

definition get_escaped_string :: "LPCWSTR \<Rightarrow> int \<Rightarrow> escaped_string option" where
  "get_escaped_string str len =
     (case str of
        None \<Rightarrow> None
      | Some s \<Rightarrow>
          (let conv_len = (if len = - 1 then default_alloc else max (2 * len) default_alloc);
               (rest, ret, conv_len') = escape_loop len s len [] conv_len
           in Some \<lparr> escaped = ret,
                     escaped_len = (if len \<noteq> - 1 then int (length ret) else len),
                     str_advance = length s - length rest \<rparr>))"

text \<open>
  The transform as the specification words it: \<open><\<close> becomes \<open>&lt;\<close>, \<open>&\<close> becomes
  \<open>&amp;\<close>, \<open>"\<close> becomes \<open>&quot;\<close>, \<open>>\<close> becomes \<open>&gt;\<close>, every other unit is copied.
\<close>

definition xml_entity :: "WCHAR \<Rightarrow> WCHAR list" where
  "xml_entity c =
     (if c = of_char (CHR ''<'') then wstr ''&lt;''
      else if c = of_char (CHR ''&'') then wstr ''&amp;''
      else if c = of_char (CHR 0x22) then wstr ''&quot;''
      else if c = of_char (CHR ''>'') then wstr ''&gt;''
      else [c])"

definition xml_escape :: "WCHAR list \<Rightarrow> WCHAR list" where
  "xml_escape s = concat (map xml_entity s)"

section \<open>Result codes and configuration values\<close>

text \<open>
  Modelled from the spec: the \<^verbatim>\<open>HRESULT\<close> codes and the \<^verbatim>\<open>FAILED\<close> macro of the Windows
  headers, which are not part of the source file. An \<^verbatim>\<open>HRESULT\<close> is a signed 32-bit
  value that denotes failure when negative.
\<close>

type_synonym HRESULT = "32 word"

definition S_OK :: HRESULT where "S_OK = 0"
definition E_NOTIMPL :: HRESULT where "E_NOTIMPL = 0x80004001"
definition E_FAIL :: HRESULT where "E_FAIL = 0x80004005"
definition E_INVALIDARG :: HRESULT where "E_INVALIDARG = 0x80070057"

definition FAILED :: "HRESULT \<Rightarrow> bool" where
  "FAILED hr = (sint hr < 0)"

text \<open>
  Modelled from the spec: \<^verbatim>\<open>VARIANT_BOOL\<close> is a 16-bit integer with \<^verbatim>\<open>VARIANT_TRUE\<close> all
  ones and \<^verbatim>\<open>VARIANT_FALSE\<close> zero (Windows headers); \<^verbatim>\<open>MSXML_VERSION\<close> is the enumeration
  of class versions in \<^verbatim>\<open>msxml_private.h\<close>, of which the writer singles out \<open>MSXML6\<close>.
\<close>

type_synonym VARIANT_BOOL = "16 word"

definition VARIANT_TRUE :: VARIANT_BOOL where "VARIANT_TRUE = - 1"
definition VARIANT_FALSE :: VARIANT_BOOL where "VARIANT_FALSE = 0"

datatype MXWRITER_PROPS =
    MXWriter_BOM
  | MXWriter_DisableEscaping
  | MXWriter_Indent
  | MXWriter_OmitXmlDecl
  | MXWriter_Standalone

datatype MSXML_VERSION = MSXML_DEFAULT | MSXML2 | MSXML26 | MSXML3 | MSXML4 | MSXML6

text \<open>
  Modelled from the spec: the encodings of libxml2's \<^verbatim>\<open>xmlCharEncoding\<close>. The writer
  tells UTF-8 and UTF-16LE from every other value; \<open>XML_CHAR_ENCODING_ERROR\<close> and
  \<open>XML_CHAR_ENCODING_UTF16BE\<close> stand for the others.
\<close>

datatype xmlCharEncoding =
    XML_CHAR_ENCODING_ERROR
  | XML_CHAR_ENCODING_NONE
  | XML_CHAR_ENCODING_UTF8
  | XML_CHAR_ENCODING_UTF16LE
  | XML_CHAR_ENCODING_UTF16BE

definition utf16W :: "WCHAR list" where "utf16W = wstr ''UTF-16''"
definition utf8W :: "WCHAR list" where "utf8W = wstr ''UTF-8''"
definition emptyW :: "WCHAR list" where "emptyW = []"

text \<open>
  Modelled from the spec: \<^verbatim>\<open>xmlParseCharEncoding\<close> applied to the narrow copy of an
  encoding name (\<^verbatim>\<open>heap_strdupWtoA\<close>). The writer calls it with the names \<open>UTF-16\<close> and
  \<open>UTF-8\<close> only.
\<close>

definition xmlParseCharEncoding :: "WCHAR list \<Rightarrow> xmlCharEncoding" where
  "xmlParseCharEncoding name =
     (if takeWhile (\<lambda>c. c \<noteq> 0) name = wstr ''UTF-8'' then XML_CHAR_ENCODING_UTF8
      else if takeWhile (\<lambda>c. c \<noteq> 0) name = wstr ''UTF-16'' then XML_CHAR_ENCODING_UTF16LE
      else XML_CHAR_ENCODING_ERROR)"

fun get_encoding_name :: "xmlCharEncoding \<Rightarrow> WCHAR list" where
  "get_encoding_name XML_CHAR_ENCODING_UTF8 = utf8W"
| "get_encoding_name XML_CHAR_ENCODING_UTF16LE = utf16W"
| "get_encoding_name _ = wstr ''unknown''"

section \<open>String primitives of the Wine and OLE headers\<close>

text \<open>\<^verbatim>\<open>*str\<close> for a pointer into a terminated object.\<close>

fun peek :: "WCHAR list \<Rightarrow> WCHAR" where
  "peek [] = 0"
| "peek (c # _) = c"

text \<open>
  Modelled from the spec: \<^verbatim>\<open>strcmpW\<close> and \<^verbatim>\<open>strncmpW\<close> of \<^verbatim>\<open>wine/unicode.h\<close>, the
  wide-character \<^verbatim>\<open>strcmp\<close> and \<^verbatim>\<open>strncmp\<close>: units are compared as they are (no case
  folding) up to the first difference or the terminator of the first string;
  \<^verbatim>\<open>strncmpW\<close> looks at no more than \<open>n\<close> units and yields 0 when \<open>n \<le> 0\<close>.
\<close>

fun strcmpW :: "WCHAR list \<Rightarrow> WCHAR list \<Rightarrow> int" where
  "strcmpW (a # as) (b # bs) =
     (if a \<noteq> 0 \<and> a = b then strcmpW as bs else int (unat a) - int (unat b))"
| "strcmpW [] s2 = 0 - int (unat (peek s2))"
| "strcmpW (a # as) [] = int (unat a) - 0"

fun strncmpW_loop :: "WCHAR list \<Rightarrow> WCHAR list \<Rightarrow> int \<Rightarrow> int" where
  "strncmpW_loop (a # as) (b # bs) n =
     (if n - 1 > 0 \<and> a \<noteq> 0 \<and> a = b then strncmpW_loop as bs (n - 1)
      else int (unat a) - int (unat b))"
| "strncmpW_loop [] s2 n = 0 - int (unat (peek s2))"
| "strncmpW_loop (a # as) [] n = int (unat a) - 0"

definition strncmpW :: "WCHAR list \<Rightarrow> WCHAR list \<Rightarrow> int \<Rightarrow> int" where
  "strncmpW str1 str2 n = (if n \<le> 0 then 0 else strncmpW_loop str1 str2 n)"

text \<open>
  Reading \<open>n\<close> units through a pointer (\<^verbatim>\<open>memcpy\<close> from it): defined while the read
  stays inside the object, terminator included.
\<close>

definition mem_units :: "LPCWSTR \<Rightarrow> int \<Rightarrow> WCHAR list option" where
  "mem_units p n =
     (case p of
        None \<Rightarrow> None
      | Some xs \<Rightarrow>
          (if 0 \<le> n \<and> nat n \<le> Suc (length xs) then Some (take (nat n) (xs @ [0]))
           else None))"

text \<open>
  Modelled from the spec: \<^verbatim>\<open>SysAllocString\<close> and \<^verbatim>\<open>SysAllocStringLen\<close> of oleaut32.
  The first copies a string up to its terminator. The second copies \<open>len\<close> units and
  returns NULL when the unsigned length is too large to allocate, which is the case
  for every negative \<^verbatim>\<open>int\<close>; the outer \<open>option\<close> is the read, the inner one the BSTR.
\<close>

definition SysAllocString :: "WCHAR list \<Rightarrow> WCHAR list" where
  "SysAllocString s = takeWhile (\<lambda>c. c \<noteq> 0) s"

definition SysAllocStringLen :: "WCHAR list \<Rightarrow> int \<Rightarrow> WCHAR list option option" where
  "SysAllocStringLen s len =
     (if len < 0 then Some None
      else case mem_units (Some s) len of None \<Rightarrow> None | Some us \<Rightarrow> Some (Some us))"

text \<open>
  Modelled from the spec: the conversion of wide text to the target byte encoding,
  \<^verbatim>\<open>WideCharToMultiByte\<close> for the code page \<^verbatim>\<open>CP_UTF8\<close>. UTF-8 takes one byte below
  \<open>0x80\<close>, two below \<open>0x800\<close>, four for a surrogate pair and three otherwise; an
  unpaired surrogate yields no bytes.
\<close>

definition is_high_surrogate :: "WCHAR \<Rightarrow> bool" where
  "is_high_surrogate c = (0xD800 \<le> c \<and> c \<le> 0xDBFF)"

definition is_low_surrogate :: "WCHAR \<Rightarrow> bool" where
  "is_low_surrogate c = (0xDC00 \<le> c \<and> c \<le> 0xDFFF)"

definition utf8_3 :: "WCHAR \<Rightarrow> BYTE list" where
  "utf8_3 c = [0xE0 OR ucast (drop_bit 12 c),
               0x80 OR ucast (drop_bit 6 c AND 0x3F),
               0x80 OR ucast (c AND 0x3F)]"

definition utf8_4 :: "WCHAR \<Rightarrow> WCHAR \<Rightarrow> BYTE list" where
  "utf8_4 hi lo =
     (let v = (0x10000 + push_bit 10 (ucast (hi AND 0x3FF)) + ucast (lo AND 0x3FF) :: 32 word)
      in [0xF0 OR ucast (drop_bit 18 v),
          0x80 OR ucast (drop_bit 12 v AND 0x3F),
          0x80 OR ucast (drop_bit 6 v AND 0x3F),
          0x80 OR ucast (v AND 0x3F)])"

fun utf8_encode :: "WCHAR list \<Rightarrow> BYTE list" where
  "utf8_encode [] = []"
| "utf8_encode [c] =
     (if c < 0x80 then [ucast c]
      else if c < 0x800 then [0xC0 OR ucast (drop_bit 6 c), 0x80 OR ucast (c AND 0x3F)]
      else if is_high_surrogate c \<or> is_low_surrogate c then []
      else utf8_3 c)"
| "utf8_encode (c # d # cs) =
     (if c < 0x80 then ucast c # utf8_encode (d # cs)
      else if c < 0x800 then
        [0xC0 OR ucast (drop_bit 6 c), 0x80 OR ucast (c AND 0x3F)] @ utf8_encode (d # cs)
      else if is_high_surrogate c \<and> is_low_surrogate d then utf8_4 c d @ utf8_encode cs
      else if is_high_surrogate c \<or> is_low_surrogate c then utf8_encode (d # cs)
      else utf8_3 c @ utf8_encode (d # cs))"

text \<open>
  The bytes \<^verbatim>\<open>WideCharToMultiByte\<close> produces for a source pointer and a length: a
  negative length converts the string up to and including its terminator, a length of
  0 converts nothing. A NULL source with a non-zero length is an invalid call, which
  no path of the writer survives (the native copy dereferences the same pointer).
\<close>

definition WideCharToMultiByte :: "LPCWSTR \<Rightarrow> int \<Rightarrow> BYTE list option" where
  "WideCharToMultiByte src srclen =
     (if srclen = 0 then Some []
      else case src of
        None \<Rightarrow> None
      | Some xs \<Rightarrow>
          (if srclen < 0 then Some (utf8_encode (takeWhile (\<lambda>c. c \<noteq> 0) xs @ [0]))
           else map_option utf8_encode (mem_units src srclen)))"

text \<open>A \<^verbatim>\<open>WCHAR\<close> in memory: two bytes, low byte first.\<close>

definition wchar_bytes :: "WCHAR \<Rightarrow> BYTE list" where
  "wchar_bytes c = [ucast c, ucast (drop_bit 8 c)]"

definition wchars_bytes :: "WCHAR list \<Rightarrow> BYTE list" where
  "wchars_bytes s = concat (map wchar_bytes s)"

fun bytes_wchars :: "BYTE list \<Rightarrow> WCHAR list" where
  "bytes_wchars (lo # hi # bs) = (ucast lo OR push_bit 8 (ucast hi)) # bytes_wchars bs"
| "bytes_wchars _ = []"

section \<open>The output buffers\<close>

text \<open>
  \<^verbatim>\<open>encoded_buffer\<close>: \<open>data\<close> holds the first \<open>written\<close> bytes of the C array (its
  content); the bytes after them are the terminator the code keeps there. The
  \<^verbatim>\<open>unsigned int\<close> counters are natural numbers: no buffer reaches \<open>2 ^ 32\<close> bytes, and
  allocation is taken to succeed.
\<close>

record encoded_buffer =
  data :: "BYTE list"
  allocated :: nat
  written :: nat

type_synonym UINT = "32 word"

definition CP_UTF8 :: UINT where "CP_UTF8 = 65001"

record output_buffer =
  utf16 :: encoded_buffer
  encoded :: encoded_buffer
  code_page :: UINT

definition init_encoded_buffer :: encoded_buffer where
  "init_encoded_buffer = \<lparr> data = [], allocated = 0x2000, written = 0 \<rparr>"

definition zero_encoded_buffer :: encoded_buffer where
  "zero_encoded_buffer = \<lparr> data = [], allocated = 0, written = 0 \<rparr>"

text \<open>\<^verbatim>\<open>get_code_page\<close>: the result code and the value left in \<^verbatim>\<open>*cp\<close>.\<close>

fun get_code_page :: "xmlCharEncoding \<Rightarrow> UINT \<Rightarrow> HRESULT \<times> UINT" where
  "get_code_page XML_CHAR_ENCODING_UTF8 cp = (S_OK, CP_UTF8)"
| "get_code_page XML_CHAR_ENCODING_UTF16LE cp = (S_OK, NOT 0)"
| "get_code_page _ cp = (E_NOTIMPL, cp)"

definition alloc_output_buffer :: "xmlCharEncoding \<Rightarrow> HRESULT \<times> output_buffer option" where
  "alloc_output_buffer enc =
     (let (hr, cp) = get_code_page enc 0 in
      if hr \<noteq> S_OK then (hr, None)
      else (S_OK, Some \<lparr> utf16 = init_encoded_buffer,
                         encoded = (if cp = CP_UTF8 then init_encoded_buffer
                                    else zero_encoded_buffer),
                         code_page = cp \<rparr>))"

definition grow_buffer :: "encoded_buffer \<Rightarrow> nat \<Rightarrow> encoded_buffer" where
  "grow_buffer buffer length1 =
     (if allocated buffer < written buffer + length1 + 4
      then buffer\<lparr> allocated := max (2 * allocated buffer) (allocated buffer + length1) \<rparr>
      else buffer)"

datatype output_mode = OutputBuffer_Native | OutputBuffer_Encoded | OutputBuffer_Both

fun output_mode_bits :: "output_mode \<Rightarrow> 32 word" where
  "output_mode_bits OutputBuffer_Native = 0x001"
| "output_mode_bits OutputBuffer_Encoded = 0x010"
| "output_mode_bits OutputBuffer_Both = 0x100"

text \<open>Storing bytes at \<^verbatim>\<open>data + written\<close> and advancing \<^verbatim>\<open>written\<close> by their number.\<close>

definition store_bytes :: "encoded_buffer \<Rightarrow> BYTE list \<Rightarrow> encoded_buffer" where
  "store_bytes buffer bytes =
     buffer\<lparr> data := data buffer @ bytes, written := written buffer + length bytes \<rparr>"

definition write_output_buffer_mode ::
  "output_buffer \<Rightarrow> output_mode \<Rightarrow> LPCWSTR \<Rightarrow> int \<Rightarrow> output_buffer option" where
  "write_output_buffer_mode buffer mode wdata len =
     do {
       buffer1 \<leftarrow>
         (if output_mode_bits mode
               AND (output_mode_bits OutputBuffer_Encoded OR output_mode_bits OutputBuffer_Both) \<noteq> 0
             \<and> code_page buffer = CP_UTF8
          then do {
            bytes \<leftarrow> WideCharToMultiByte wdata len;
            Some (buffer\<lparr> encoded :=
                    store_bytes (grow_buffer (encoded buffer) (length bytes))
                      (if len = - 1 then take (length bytes - 1) bytes else bytes) \<rparr>)
          }
          else Some buffer);
       if output_mode_bits mode
            AND (output_mode_bits OutputBuffer_Native OR output_mode_bits OutputBuffer_Both) \<noteq> 0
       then do {
         length1 \<leftarrow> (if len = - 1 then map_option (\<lambda>s. int (strlenW s)) wdata else Some len);
         if length1 \<noteq> 0 then do {
           units \<leftarrow> mem_units wdata length1;
           Some (buffer1\<lparr> utf16 :=
                   store_bytes (grow_buffer (utf16 buffer1) (nat (length1 * 2)))
                     (wchars_bytes units) \<rparr>)
         }
         else Some buffer1
       }
       else Some buffer1
     }"

definition write_output_buffer :: "output_buffer \<Rightarrow> LPCWSTR \<Rightarrow> int \<Rightarrow> output_buffer option" where
  "write_output_buffer buffer wdata len =
     write_output_buffer_mode buffer OutputBuffer_Both wdata len"

section \<open>The writer object\<close>

text \<open>
  The destination stream is an external object. Its model keeps the payload of every
  \<^verbatim>\<open>Write\<close> call it received, in order. What the stream answers to a call (the result
  code and the byte count stored through \<^verbatim>\<open>pcbWritten\<close>) is not decided by the writer:
  every operation that may write to the stream takes that answer as its \<open>reply\<close>
  argument.
\<close>

record IStream =
  stream_writes :: "BYTE list list"

definition IStream_Write :: "IStream \<Rightarrow> BYTE list \<Rightarrow> IStream" where
  "IStream_Write stm bytes = stm\<lparr> stream_writes := stream_writes stm @ [bytes] \<rparr>"

record mxwriter =
  class_version :: MSXML_VERSION
  props :: "MXWRITER_PROPS \<Rightarrow> VARIANT_BOOL"
  prop_changed :: bool
  encoding :: xmlCharEncoding
  version :: "WCHAR list"
  element :: "WCHAR list option"
  dest :: "IStream option"
  dest_written :: nat
  buffer :: output_buffer

definition close_output_buffer :: "mxwriter \<Rightarrow> mxwriter" where
  "close_output_buffer This =
     This\<lparr> buffer :=
       \<lparr> utf16 = init_encoded_buffer,
         encoded = init_encoded_buffer,
         code_page = snd (get_code_page (encoding This) (code_page (buffer This))) \<rparr> \<rparr>"

definition versionW :: "WCHAR list" where
  \<open>versionW = wstr ''<?xml version="''\<close>

definition encodingW :: "WCHAR list" where
  \<open>encodingW = wstr '' encoding="''\<close>

definition standaloneW :: "WCHAR list" where
  \<open>standaloneW = wstr '' standalone="''\<close>

definition yesW :: "WCHAR list" where
  \<open>yesW = wstr ''yes"?>''\<close>

definition noW :: "WCHAR list" where
  \<open>noW = wstr ''no"?>''\<close>

definition crlfW :: "WCHAR list" where
  "crlfW = [0x0D, 0x0A]"

definition write_prolog_buffer :: "mxwriter \<Rightarrow> output_buffer option" where
  \<open>write_prolog_buffer This =
     do {
       b \<leftarrow> write_output_buffer (buffer This) (Some versionW) (int (length versionW));
       b \<leftarrow> write_output_buffer b (Some (version This)) (- 1);
       b \<leftarrow> write_output_buffer b (Some (wstr ''"'')) 1;
       b \<leftarrow> write_output_buffer b (Some encodingW) (int (length encodingW));
       b \<leftarrow> write_output_buffer_mode b OutputBuffer_Native (Some utf16W) (int (length utf16W));
       b \<leftarrow> write_output_buffer_mode b OutputBuffer_Encoded
              (Some (get_encoding_name (encoding This))) (- 1);
       b \<leftarrow> write_output_buffer b (Some (wstr ''"'')) 1;
       b \<leftarrow> write_output_buffer b (Some standaloneW) (int (length standaloneW));
       b \<leftarrow> (if props This MXWriter_Standalone = VARIANT_TRUE
              then write_output_buffer b (Some yesW) (int (length yesW))
              else write_output_buffer b (Some noW) (int (length noW)));
       write_output_buffer b (Some crlfW) (int (length crlfW))
     }\<close>

text \<open>
  \<^verbatim>\<open>write_data_to_stream\<close>. The buffer it reads is picked by the encoding; the sanity
  check on the offset comes first, then the early exit for a flushed buffer that is not
  UTF-8, then the \<^verbatim>\<open>Write\<close> call.
\<close>

definition flush_source :: "mxwriter \<Rightarrow> encoded_buffer" where
  "flush_source This =
     (if encoding This \<noteq> XML_CHAR_ENCODING_UTF16LE then encoded (buffer This)
      else utf16 (buffer This))"

definition write_data_to_stream :: "mxwriter \<Rightarrow> HRESULT \<times> nat \<Rightarrow> HRESULT \<times> mxwriter" where
  "write_data_to_stream This reply =
     (case dest This of
        None \<Rightarrow> (S_OK, This)
      | Some stm \<Rightarrow>
          (let buf = flush_source This in
           if dest_written This > written buf then (E_FAIL, This)
           else if dest_written This = written buf \<and> encoding This \<noteq> XML_CHAR_ENCODING_UTF8
           then (S_OK, This)
           else
             (let stm' = IStream_Write stm
                           (take (written buf - dest_written This)
                              (drop (dest_written This) (data buf)));
                  (hr, n) = reply
              in if FAILED hr then (hr, This\<lparr> dest := Some stm' \<rparr>)
                 else (hr, This\<lparr> dest := Some stm', dest_written := dest_written This + n \<rparr>))))"

definition close_element_starttag :: "mxwriter \<Rightarrow> mxwriter option" where
  "close_element_starttag This =
     (case element This of
        None \<Rightarrow> Some This
      | Some e \<Rightarrow>
          map_option (\<lambda>b. This\<lparr> buffer := b \<rparr>)
            (write_output_buffer (buffer This) (Some (wstr ''>'')) 1))"

definition set_element_name :: "mxwriter \<Rightarrow> LPCWSTR \<Rightarrow> int \<Rightarrow> mxwriter option" where
  "set_element_name This name len =
     (case name of
        None \<Rightarrow> Some (This\<lparr> element := None \<rparr>)
      | Some s \<Rightarrow> map_option (\<lambda>e. This\<lparr> element := e \<rparr>) (SysAllocStringLen s len))"

definition flush_output_buffer ::
  "mxwriter \<Rightarrow> HRESULT \<times> nat \<Rightarrow> (HRESULT \<times> mxwriter) option" where
  "flush_output_buffer This reply =
     do {
       t \<leftarrow> close_element_starttag This;
       t \<leftarrow> set_element_name t None 0;
       Some (write_data_to_stream t reply)
     }"

definition reset_output_buffer :: "mxwriter \<Rightarrow> mxwriter" where
  "reset_output_buffer This = (close_output_buffer This)\<lparr> dest_written := 0 \<rparr>"

definition writer_set_property ::
  "mxwriter \<Rightarrow> MXWRITER_PROPS \<Rightarrow> VARIANT_BOOL \<Rightarrow> HRESULT \<times> mxwriter" where
  "writer_set_property writer property val =
     (S_OK, writer\<lparr> props := (props writer)(property := val), prop_changed := True \<rparr>)"

section \<open>The \<^verbatim>\<open>IMXWriter\<close> methods\<close>

text \<open>
  The destination argument of \<^verbatim>\<open>put_output\<close>: an empty variant, an object (with the
  stream that \<^verbatim>\<open>QueryInterface\<close> returns for it, if any), or any other type.
\<close>

datatype VARIANT = VT_EMPTY | VT_UNKNOWN "IStream option" | VT_OTHER

definition mxwriter_put_output ::
  "mxwriter \<Rightarrow> VARIANT \<Rightarrow> HRESULT \<times> nat \<Rightarrow> (HRESULT \<times> mxwriter) option" where
  "mxwriter_put_output This dest1 reply =
     do {
       (hr, t) \<leftarrow> flush_output_buffer This reply;
       if FAILED hr then Some (hr, t)
       else (case dest1 of
               VT_EMPTY \<Rightarrow> Some (S_OK, reset_output_buffer (t\<lparr> dest := None \<rparr>))
             | VT_UNKNOWN (Some stream) \<Rightarrow>
                 Some (S_OK, (reset_output_buffer t)\<lparr> dest := Some stream \<rparr>)
             | VT_UNKNOWN None \<Rightarrow> Some (E_NOTIMPL, t)
             | VT_OTHER \<Rightarrow> Some (E_NOTIMPL, t))
     }"

text \<open>
  \<^verbatim>\<open>get_output\<close> returns the native buffer read as a terminated wide string. With no
  stream attached the flush makes no \<^verbatim>\<open>Write\<close> call, so no reply is consumed.
\<close>

definition mxwriter_get_output ::
  "mxwriter \<Rightarrow> ((HRESULT \<times> WCHAR list option) \<times> mxwriter) option" where
  "mxwriter_get_output This =
     (case dest This of
        None \<Rightarrow>
          do {
            (hr, t) \<leftarrow> flush_output_buffer This (S_OK, 0);
            if FAILED hr then Some ((hr, None), t)
            else Some ((S_OK, Some (SysAllocString (bytes_wchars (data (utf16 (buffer t)))))), t)
          }
      | Some stm \<Rightarrow> Some ((E_NOTIMPL, None), This))"

definition mxwriter_put_encoding ::
  "mxwriter \<Rightarrow> WCHAR list \<Rightarrow> HRESULT \<times> nat \<Rightarrow> (HRESULT \<times> mxwriter) option" where
  "mxwriter_put_encoding This encoding1 reply =
     (if strcmpW encoding1 utf16W = 0 \<or> strcmpW encoding1 utf8W = 0 then
        do {
          (hr, t) \<leftarrow> flush_output_buffer This reply;
          if FAILED hr then Some (hr, t)
          else Some (S_OK, reset_output_buffer (t\<lparr> encoding := xmlParseCharEncoding encoding1 \<rparr>))
        }
      else Some (E_INVALIDARG, This))"

definition mxwriter_put_byteOrderMark :: "mxwriter \<Rightarrow> VARIANT_BOOL \<Rightarrow> HRESULT \<times> mxwriter" where
  "mxwriter_put_byteOrderMark This val = writer_set_property This MXWriter_BOM val"

definition mxwriter_put_indent :: "mxwriter \<Rightarrow> VARIANT_BOOL \<Rightarrow> HRESULT \<times> mxwriter" where
  "mxwriter_put_indent This val = writer_set_property This MXWriter_Indent val"

definition mxwriter_put_standalone :: "mxwriter \<Rightarrow> VARIANT_BOOL \<Rightarrow> HRESULT \<times> mxwriter" where
  "mxwriter_put_standalone This val = writer_set_property This MXWriter_Standalone val"

definition mxwriter_put_omitXMLDeclaration ::
  "mxwriter \<Rightarrow> VARIANT_BOOL \<Rightarrow> HRESULT \<times> mxwriter" where
  "mxwriter_put_omitXMLDeclaration This val = writer_set_property This MXWriter_OmitXmlDecl val"

definition mxwriter_put_disableOutputEscaping ::
  "mxwriter \<Rightarrow> VARIANT_BOOL \<Rightarrow> HRESULT \<times> mxwriter" where
  "mxwriter_put_disableOutputEscaping This val =
     writer_set_property This MXWriter_DisableEscaping val"

definition mxwriter_put_version :: "mxwriter \<Rightarrow> LPCWSTR \<Rightarrow> HRESULT \<times> mxwriter" where
  "mxwriter_put_version This version1 =
     (case version1 of
        None \<Rightarrow> (E_INVALIDARG, This)
      | Some v \<Rightarrow> (S_OK, This\<lparr> version := SysAllocString v \<rparr>))"

definition mxwriter_flush :: "mxwriter \<Rightarrow> HRESULT \<times> nat \<Rightarrow> (HRESULT \<times> mxwriter) option" where
  "mxwriter_flush This reply = flush_output_buffer This reply"

section \<open>The \<^verbatim>\<open>ISAXContentHandler\<close> methods\<close>

definition utf16BOM :: "BYTE list" where
  "utf16BOM = [0xff, 0xfe]"

definition mxwriter_saxcontent_startDocument :: "mxwriter \<Rightarrow> (HRESULT \<times> mxwriter) option" where
  "mxwriter_saxcontent_startDocument This =
     (let t = (if prop_changed This then (reset_output_buffer This)\<lparr> prop_changed := False \<rparr>
               else This)
      in if props t MXWriter_OmitXmlDecl = VARIANT_TRUE then Some (S_OK, t)
         else do {
           b \<leftarrow> write_prolog_buffer t;
           Some (S_OK,
             (case dest t of
                None \<Rightarrow> t\<lparr> buffer := b \<rparr>
              | Some stm \<Rightarrow>
                  (if encoding t = XML_CHAR_ENCODING_UTF16LE
                      \<and> props t MXWriter_BOM = VARIANT_TRUE
                   then t\<lparr> buffer := b, dest := Some (IStream_Write stm utf16BOM) \<rparr>
                   else t\<lparr> buffer := b \<rparr>)))
         })"

definition mxwriter_saxcontent_endDocument ::
  "mxwriter \<Rightarrow> HRESULT \<times> nat \<Rightarrow> (HRESULT \<times> mxwriter) option" where
  "mxwriter_saxcontent_endDocument This reply =
     flush_output_buffer (This\<lparr> prop_changed := False \<rparr>) reply"

text \<open>
  The attribute collection is an external object: its three methods with their result
  codes and out-parameters.
\<close>

record ISAXAttributes =
  getLength :: "HRESULT \<times> int"
  getQName :: "int \<Rightarrow> HRESULT \<times> LPCWSTR \<times> int"
  getValue :: "int \<Rightarrow> HRESULT \<times> LPCWSTR \<times> int"

text \<open>
  The loop \<^verbatim>\<open>for (i = 0; i < length; i++)\<close> of \<^verbatim>\<open>startElement\<close>, from index \<open>i\<close> on. A
  failing attribute method returns its code with what has been written so far. The
  escaped value is written with the length the escaper returned; for the sentinel
  \<open>- 1\<close> that length stays \<open>- 1\<close> and the write would scan the returned buffer up to a
  terminator, through the unit the escaper never wrote: that read is undefined.
\<close>

function write_attributes ::
  "ISAXAttributes \<Rightarrow> int \<Rightarrow> int \<Rightarrow> output_buffer \<Rightarrow> (HRESULT \<times> output_buffer) option" where
  "write_attributes attr i length1 b =
     (if i < length1 then
        (case getQName attr i of (hr, str, len) \<Rightarrow>
           if FAILED hr then Some (hr, b)
           else do {
             b \<leftarrow> write_output_buffer b (Some (wstr '' '')) 1;
             b \<leftarrow> write_output_buffer b str len;
             b \<leftarrow> write_output_buffer b (Some (wstr [CHR ''='', CHR 0x22])) 2;
             (case getValue attr i of (hr, str, len) \<Rightarrow>
                if FAILED hr then Some (hr, b)
                else do {
                  e \<leftarrow> get_escaped_string str len;
                  b \<leftarrow> (if escaped_len e = - 1 then None
                         else write_output_buffer b (Some (escaped e)) (escaped_len e));
                  b \<leftarrow> write_output_buffer b (Some (wstr [CHR 0x22])) 1;
                  write_attributes attr (i + 1) length1 b
                })
           })
      else Some (S_OK, b))"
  by pat_completeness auto
termination
  by (relation "measure (\<lambda>(attr, i, length1, b). nat (length1 - i))") auto

declare write_attributes.simps [simp del]

definition mxwriter_saxcontent_startElement ::
  "mxwriter \<Rightarrow> LPCWSTR \<Rightarrow> int \<Rightarrow> LPCWSTR \<Rightarrow> int \<Rightarrow> LPCWSTR \<Rightarrow> int
     \<Rightarrow> ISAXAttributes option \<Rightarrow> (HRESULT \<times> mxwriter) option" where
  "mxwriter_saxcontent_startElement This namespaceUri nnamespaceUri local_name nlocal_name
       QName nQName attr =
     (if (namespaceUri = None \<or> local_name = None \<or> QName = None)
         \<and> class_version This \<noteq> MSXML6
      then Some (E_INVALIDARG, This)
      else do {
        t \<leftarrow> close_element_starttag This;
        t \<leftarrow> set_element_name t (Some (case QName of None \<Rightarrow> emptyW | Some q \<Rightarrow> q))
               (case QName of None \<Rightarrow> 0 | Some q \<Rightarrow> nQName);
        b \<leftarrow> write_output_buffer (buffer t) (Some (wstr ''<'')) 1;
        b \<leftarrow> write_output_buffer b QName nQName;
        (case attr of
           None \<Rightarrow> Some (S_OK, t\<lparr> buffer := b \<rparr>)
         | Some a \<Rightarrow>
             (case getLength a of (hr, length1) \<Rightarrow>
                if FAILED hr then Some (hr, t\<lparr> buffer := b \<rparr>)
                else do {
                  (hr, b) \<leftarrow> write_attributes a 0 length1 b;
                  Some (hr, t\<lparr> buffer := b \<rparr>)
                }))
      })"

definition mxwriter_saxcontent_endElement ::
  "mxwriter \<Rightarrow> LPCWSTR \<Rightarrow> int \<Rightarrow> LPCWSTR \<Rightarrow> int \<Rightarrow> LPCWSTR \<Rightarrow> int
     \<Rightarrow> (HRESULT \<times> mxwriter) option" where
  "mxwriter_saxcontent_endElement This namespaceUri nnamespaceUri local_name nlocal_name
       QName nQName =
     (if (namespaceUri = None \<or> local_name = None \<or> QName = None)
         \<and> class_version This \<noteq> MSXML6
      then Some (E_INVALIDARG, This)
      else do {
        b \<leftarrow> (if (case (element This, QName) of
                     (Some e, Some q) \<Rightarrow> strncmpW e q nQName = 0
                   | _ \<Rightarrow> False)
               then write_output_buffer (buffer This) (Some (wstr ''/>'')) 2
               else do {
                 b \<leftarrow> write_output_buffer (buffer This) (Some (wstr ''</'')) 2;
                 b \<leftarrow> write_output_buffer b QName nQName;
                 write_output_buffer b (Some (wstr ''>'')) 1
               });
        t \<leftarrow> set_element_name (This\<lparr> buffer := b \<rparr>) None 0;
        Some (S_OK, t)
      })"

definition mxwriter_saxcontent_characters ::
  "mxwriter \<Rightarrow> LPCWSTR \<Rightarrow> int \<Rightarrow> (HRESULT \<times> mxwriter) option" where
  "mxwriter_saxcontent_characters This chars nchars =
     (case chars of
        None \<Rightarrow> Some (E_INVALIDARG, This)
      | Some c \<Rightarrow>
          do {
            t \<leftarrow> close_element_starttag This;
            t \<leftarrow> set_element_name t None 0;
            if nchars \<noteq> 0 then do {
              b \<leftarrow> write_output_buffer (buffer t) chars nchars;
              Some (S_OK, t\<lparr> buffer := b \<rparr>)
            }
            else Some (S_OK, t)
          })"

section \<open>Construction and the reachable states\<close>

definition MXWriter_create :: "MSXML_VERSION \<Rightarrow> HRESULT \<times> mxwriter option" where
  "MXWriter_create version1 =
     (let enc = xmlParseCharEncoding (wstr ''UTF-16'') in
      case alloc_output_buffer enc of
        (hr, None) \<Rightarrow> (hr, None)
      | (hr, Some b) \<Rightarrow>
          (S_OK, Some \<lparr> class_version = version1,
                        props = (\<lambda>p. VARIANT_FALSE)(MXWriter_BOM := VARIANT_TRUE),
                        prop_changed = False,
                        encoding = enc,
                        version = SysAllocString (wstr ''1.0''),
                        element = None,
                        dest = None,
                        dest_written = 0,
                        buffer = b \<rparr>))"

text \<open>
  The calls a client can make on a writer, each with its arguments and, where the call
  may write to the stream, the stream's reply. The methods left out do not change the
  writer: the property getters, and the handlers that only return \<open>E_NOTIMPL\<close>
  (\<^verbatim>\<open>putDocumentLocator\<close>, the prefix mappings, \<^verbatim>\<open>ignorableWhitespace\<close>,
  \<^verbatim>\<open>processingInstruction\<close>, \<^verbatim>\<open>skippedEntity\<close>). Reference counting is not modelled; the
  last \<^verbatim>\<open>Release\<close> flushes as \<^verbatim>\<open>flush\<close> does and then frees the object.
\<close>

datatype call =
    Put_output VARIANT "HRESULT \<times> nat"
  | Get_output
  | Put_encoding "WCHAR list" "HRESULT \<times> nat"
  | Put_byteOrderMark VARIANT_BOOL
  | Put_indent VARIANT_BOOL
  | Put_standalone VARIANT_BOOL
  | Put_omitXMLDeclaration VARIANT_BOOL
  | Put_disableOutputEscaping VARIANT_BOOL
  | Put_version LPCWSTR
  | Flush "HRESULT \<times> nat"
  | StartDocument
  | EndDocument "HRESULT \<times> nat"
  | StartElement LPCWSTR int LPCWSTR int LPCWSTR int "ISAXAttributes option"
  | EndElement LPCWSTR int LPCWSTR int LPCWSTR int
  | Characters LPCWSTR int

fun exec :: "call \<Rightarrow> mxwriter \<Rightarrow> (HRESULT \<times> mxwriter) option" where
  "exec (Put_output d reply) This = mxwriter_put_output This d reply"
| "exec Get_output This = map_option (\<lambda>((hr, v), t). (hr, t)) (mxwriter_get_output This)"
| "exec (Put_encoding e reply) This = mxwriter_put_encoding This e reply"
| "exec (Put_byteOrderMark v) This = Some (mxwriter_put_byteOrderMark This v)"
| "exec (Put_indent v) This = Some (mxwriter_put_indent This v)"
| "exec (Put_standalone v) This = Some (mxwriter_put_standalone This v)"
| "exec (Put_omitXMLDeclaration v) This = Some (mxwriter_put_omitXMLDeclaration This v)"
| "exec (Put_disableOutputEscaping v) This = Some (mxwriter_put_disableOutputEscaping This v)"
| "exec (Put_version v) This = Some (mxwriter_put_version This v)"
| "exec (Flush reply) This = mxwriter_flush This reply"
| "exec StartDocument This = mxwriter_saxcontent_startDocument This"
| "exec (EndDocument reply) This = mxwriter_saxcontent_endDocument This reply"
| "exec (StartElement u nu l nl q nq a) This =
     mxwriter_saxcontent_startElement This u nu l nl q nq a"
| "exec (EndElement u nu l nl q nq) This = mxwriter_saxcontent_endElement This u nu l nl q nq"
| "exec (Characters c n) This = mxwriter_saxcontent_characters This c n"

text \<open>
  The stream's side of the contract: it reports no more bytes written than the call
  offered. \<open>offered This\<close> is the number of bytes a flush started in \<open>This\<close> offers.
\<close>

definition offered :: "mxwriter \<Rightarrow> nat" where
  "offered This =
     (case close_element_starttag This of
        None \<Rightarrow> 0
      | Some t \<Rightarrow> written (flush_source t) - dest_written t)"

fun reply_within :: "call \<Rightarrow> mxwriter \<Rightarrow> bool" where
  "reply_within (Put_output d reply) This = (snd reply \<le> offered This)"
| "reply_within (Put_encoding e reply) This = (snd reply \<le> offered This)"
| "reply_within (Flush reply) This = (snd reply \<le> offered This)"
| "reply_within (EndDocument reply) This = (snd reply \<le> offered This)"
| "reply_within _ This = True"

inductive reachable :: "mxwriter \<Rightarrow> bool" where
  created: "MXWriter_create v = (hr, Some This) \<Longrightarrow> reachable This"
| called: "reachable This \<Longrightarrow> reply_within c This \<Longrightarrow> exec c This = Some (hr, t)
            \<Longrightarrow> reachable t"

section \<open>Sequences of calls\<close>

text \<open>
  Running a list of calls from a writer, result codes dropped; \<open>None\<close> when a call reads
  outside its arguments. \<open>replies_within\<close> holds when every stream reply along the run
  keeps to the stream's side of the contract.
\<close>

fun run_calls :: "call list \<Rightarrow> mxwriter \<Rightarrow> mxwriter option" where
  "run_calls [] This = Some This"
| "run_calls (c # cs) This =
     (case exec c This of None \<Rightarrow> None | Some (hr, t) \<Rightarrow> run_calls cs t)"

fun replies_within :: "call list \<Rightarrow> mxwriter \<Rightarrow> bool" where
  "replies_within [] This = True"
| "replies_within (c # cs) This =
     (reply_within c This
      \<and> (case exec c This of None \<Rightarrow> False | Some (hr, t) \<Rightarrow> replies_within cs t))"

text \<open>Inputs for the examples: a writer as constructed, a stream that has received nothing,
  and an attribute collection with the single attribute \<open>id="1"\<close>.\<close>

definition new_writer :: mxwriter where
  "new_writer = the (snd (MXWriter_create MSXML3))"

definition new_stream :: IStream where
  "new_stream = \<lparr> stream_writes = [] \<rparr>"

definition example_attributes :: ISAXAttributes where
  "example_attributes =
     \<lparr> getLength = (S_OK, 1),
       getQName = (\<lambda>i. if i = 0 then (S_OK, Some (wstr ''id''), 2) else (E_INVALIDARG, None, 0)),
       getValue = (\<lambda>i. if i = 0 then (S_OK, Some (wstr ''1''), 1) else (E_INVALIDARG, None, 0)) \<rparr>"

section \<open>Notions used in the statements\<close>

text \<open>
  \<open>buffer_appended b us bs b'\<close>: the buffer \<open>b'\<close> is \<open>b\<close> with the units \<open>us\<close> appended
  to the native representation and, when the code page is UTF-8, the bytes \<open>bs\<close> appended
  to the encoded one; nothing before them is changed.
\<close>

definition buffer_appended ::
  "output_buffer \<Rightarrow> WCHAR list \<Rightarrow> BYTE list \<Rightarrow> output_buffer \<Rightarrow> bool" where
  "buffer_appended b us bs b' =
     (data (utf16 b') = data (utf16 b) @ wchars_bytes us
      \<and> written (utf16 b') = written (utf16 b) + 2 * length us
      \<and> data (encoded b') = data (encoded b) @ (if code_page b = CP_UTF8 then bs else [])
      \<and> written (encoded b') = written (encoded b) + (if code_page b = CP_UTF8 then length bs else 0)
      \<and> code_page b' = code_page b)"

text \<open>
  The XML declaration as the specification words it, for the native buffer (where the
  encoding name is always \<open>UTF-16\<close>) and, piece by piece, for the encoded buffer.
\<close>

definition prolog_native :: "mxwriter \<Rightarrow> WCHAR list" where
  \<open>prolog_native This =
     wstr ''<?xml version="'' @ SysAllocString (version This)
       @ wstr ''" encoding="UTF-16" standalone="''
       @ (if props This MXWriter_Standalone = VARIANT_TRUE then wstr ''yes'' else wstr ''no'')
       @ wstr ''"?>'' @ [0x0D, 0x0A]\<close>

definition prolog_encoded :: "mxwriter \<Rightarrow> BYTE list" where
  \<open>prolog_encoded This =
     concat (map utf8_encode
       [wstr ''<?xml version="'', SysAllocString (version This), wstr ''"'',
        wstr '' encoding="'', get_encoding_name (encoding This), wstr ''"'',
        wstr '' standalone="'',
        (if props This MXWriter_Standalone = VARIANT_TRUE then wstr ''yes"?>'' else wstr ''no"?>''),
        [0x0D, 0x0A]])\<close>

text \<open>
  Growth of the written counts, a writer whose buffers only grew while its offset and
  encoding stayed, the invariant on the sink offset, and the path condition of the
  \<^verbatim>\<open>return E_FAIL\<close> branch of \<^verbatim>\<open>write_data_to_stream\<close>.
\<close>

definition buffer_le :: "output_buffer \<Rightarrow> output_buffer \<Rightarrow> bool" where
  "buffer_le b b' =
     (written (utf16 b) \<le> written (utf16 b') \<and> written (encoded b) \<le> written (encoded b'))"

definition extends :: "mxwriter \<Rightarrow> mxwriter \<Rightarrow> bool" where
  "extends This t =
     (buffer_le (buffer This) (buffer t) \<and> dest_written t = dest_written This
      \<and> encoding t = encoding This)"

definition offset_ok :: "mxwriter \<Rightarrow> bool" where
  "offset_ok This = (dest_written This \<le> written (flush_source This))"

definition fatal_branch :: "mxwriter \<Rightarrow> bool" where
  "fatal_branch This =
     (case dest This of
        None \<Rightarrow> False
      | Some stm \<Rightarrow> dest_written This > written (flush_source This))"

section \<open>Properties of the escaper\<close>

lemma strlenW_Nil: "strlenW [] = 0"
  by (simp add: strlenW_def)

lemma strlenW_Cons:
  "strlenW (c # s) = (if c = 0 then 0 else Suc (strlenW s))"
  by (simp add: strlenW_def)

lemma strlenW_le: "strlenW s \<le> length s"
  by (simp add: strlenW_def length_takeWhile_le)

lemma strlenW_take:
  "0 \<notin> set (take n s) \<Longrightarrow> n \<le> length s \<Longrightarrow> n \<le> strlenW s"
proof (induction s arbitrary: n)
  case Nil
  then show ?case by (simp add: strlenW_def)
next
  case (Cons c s)
  show ?case
  proof (cases n)
    case 0
    then show ?thesis by simp
  next
    case (Suc m)
    with Cons.prems have "c \<noteq> 0" "0 \<notin> set (take m s)" "m \<le> length s"
      by auto
    with Cons.IH [of m] Suc show ?thesis
      by (simp add: strlenW_Cons)
  qed
qed

lemma escape_step_entity:
  "(if c = 0x3C then ltW else if c = 0x26 then ampW else if c = 0x22 then quotW
    else if c = 0x3E then gtW else [c]) = xml_entity c"
  by (simp add: xml_entity_def ltW_def ampW_def quotW_def gtW_def)

text \<open>
  With a supplied length \<open>p \<ge> 0\<close> the loop runs \<open>min p (strlenW s)\<close> times: it stops at
  the first NUL even when the counter has not run out.
\<close>

lemma escape_loop_supplied:
  assumes "len \<noteq> - 1" and "0 \<le> p"
  shows "fst (escape_loop len s p ret cl) = drop (min (nat p) (strlenW s)) s
       \<and> fst (snd (escape_loop len s p ret cl))
           = ret @ xml_escape (take (min (nat p) (strlenW s)) s)"
  using assms
proof (induction s arbitrary: p ret cl)
  case Nil
  then show ?case by (simp add: xml_escape_def strlenW_def)
next
  case (Cons c s)
  show ?case
  proof (cases "c \<noteq> 0 \<and> p \<noteq> 0")
    case False
    then show ?thesis
      by (auto simp: strlenW_Cons xml_escape_def)
  next
    case True
    with Cons.prems have pos: "0 \<le> p - 1" and np: "nat p = Suc (nat (p - 1))"
      by auto
    have m: "min (nat p) (strlenW (c # s)) = Suc (min (nat (p - 1)) (strlenW s))"
      using True np by (simp add: strlenW_Cons)
    from Cons.IH [OF Cons.prems(1) pos] True Cons.prems(1) show ?thesis
      unfolding m by (simp add: escape_step_entity xml_escape_def)
  qed
qed

lemma length_xml_entity:
  "length (xml_entity c) =
     1 + 3 * (if c = 0x3C then 1 else 0) + 4 * (if c = 0x26 then 1 else 0)
       + 5 * (if c = 0x22 then 1 else 0) + 3 * (if c = 0x3E then 1 else 0)"
  by (simp add: xml_entity_def wstr_def)

lemma length_xml_escape:
  "length (xml_escape s) =
     length s + 3 * count_list s 0x3C + 4 * count_list s 0x26
       + 5 * count_list s 0x22 + 3 * count_list s 0x3E"
proof (induction s)
  case Nil
  then show ?case by (simp add: xml_escape_def)
next
  case (Cons c s)
  then show ?case
    by (simp add: xml_escape_def length_xml_entity)
qed

text \<open>
  C3. For an input with a supplied length \<open>len \<ge> 0\<close> whose first \<open>len\<close> units contain no
  NUL, the escaper returns the escaped form of exactly these units (each of
  \<open><\<close>, \<open>&\<close>, \<open>"\<close>, \<open>>\<close> replaced by its entity, every other unit copied), and the
  returned length is the input length plus 3 per \<open><\<close>, 4 per \<open>&\<close>, 5 per \<open>"\<close> and
  3 per \<open>>\<close>.
\<close>

theorem get_escaped_string_supplied_length:
  assumes "0 \<le> len" and "nat len \<le> length s" and "0 \<notin> set (take (nat len) s)"
  shows "get_escaped_string (Some s) len =
           Some \<lparr> escaped = xml_escape (take (nat len) s),
                  escaped_len = len + 3 * int (count_list (take (nat len) s) 0x3C)
                                    + 4 * int (count_list (take (nat len) s) 0x26)
                                    + 5 * int (count_list (take (nat len) s) 0x22)
                                    + 3 * int (count_list (take (nat len) s) 0x3E),
                  str_advance = nat len \<rparr>"
proof -
  let ?cl = "if len = - 1 then default_alloc else max (2 * len) default_alloc"
  have ne: "len \<noteq> - 1" using assms(1) by simp
  have "nat len \<le> strlenW s"
    using assms(2,3) by (rule strlenW_take [rotated])
  then have m: "min (nat len) (strlenW s) = nat len" by simp
  from escape_loop_supplied [OF ne assms(1), of s "[]" ?cl]
  have r: "fst (escape_loop len s len [] ?cl) = drop (nat len) s"
    and e: "fst (snd (escape_loop len s len [] ?cl)) = xml_escape (take (nat len) s)"
    unfolding m by simp_all
  have l: "int (length (take (nat len) s)) = len"
    using assms(1,2) by simp
  obtain a b c where abc: "escape_loop len s len [] ?cl = (a, b, c)"
    by (cases "escape_loop len s len [] ?cl") auto
  from r e abc have a: "a = drop (nat len) s" and b: "b = xml_escape (take (nat len) s)"
    by simp_all
  have "int (length b) = len + 3 * int (count_list (take (nat len) s) 0x3C)
                                    + 4 * int (count_list (take (nat len) s) 0x26)
                                    + 5 * int (count_list (take (nat len) s) 0x22)
                                    + 3 * int (count_list (take (nat len) s) 0x3E)"
    unfolding b length_xml_escape using l by simp
  moreover have "length s - length a = nat len"
    unfolding a using assms(2) by simp
  ultimately show ?thesis
    using ne abc b by (simp add: get_escaped_string_def)
qed

theorem get_escaped_string_supplied_length_witness:
  "(0::int) \<le> 4 \<and> nat 4 \<le> length (wstr ''a<b&'') \<and> 0 \<notin> set (take (nat 4) (wstr ''a<b&''))
   \<and> get_escaped_string (Some (wstr ''a<b&'')) 4
       = Some \<lparr> escaped = wstr ''a&lt;b&amp;'', escaped_len = 11, str_advance = 4 \<rparr>"
  using get_escaped_string_supplied_length [of 4 "wstr ''a<b&''"]
  by (simp add: wstr_def xml_escape_def xml_entity_def)

text \<open>
  C8, as stated: with a supplied length the escaper consumes exactly that many units
  whatever they are. It does not: the loop condition also tests the current unit, so an
  embedded NUL ends the scan. At the input \<open>a\<close>, NUL, \<open>b\<close> with length 3 one unit is
  consumed and the returned length is 1.
\<close>

theorem get_escaped_string_embedded_nul:
  "map_option str_advance (get_escaped_string (Some [0x61, 0, 0x62]) 3) = Some 1
   \<and> map_option escaped_len (get_escaped_string (Some [0x61, 0, 0x62]) 3) = Some 1"
  by (simp add: get_escaped_string_def default_alloc_def grow_thresh_def)

text \<open>
  C8, amended. With a supplied length \<open>len \<ge> 0\<close> the escaper consumes
  \<open>min len (strlenW s)\<close> units: it stops after \<open>len\<close> units or at the first NUL,
  whichever comes first, and returns the escaped form of the units it consumed.
\<close>

theorem get_escaped_string_stops_at_nul:
  assumes "0 \<le> len"
  shows "map_option str_advance (get_escaped_string (Some s) len)
           = Some (min (nat len) (strlenW s))
       \<and> map_option escaped (get_escaped_string (Some s) len)
           = Some (xml_escape (take (min (nat len) (strlenW s)) s))"
proof -
  let ?cl = "if len = - 1 then default_alloc else max (2 * len) default_alloc"
  have ne: "len \<noteq> - 1" using assms by simp
  obtain a b c where abc: "escape_loop len s len [] ?cl = (a, b, c)"
    by (cases "escape_loop len s len [] ?cl") auto
  from escape_loop_supplied [OF ne assms, of s "[]" ?cl] abc
  have a: "a = drop (min (nat len) (strlenW s)) s"
    and b: "b = xml_escape (take (min (nat len) (strlenW s)) s)"
    by simp_all
  have "length s - length a = min (nat len) (strlenW s)"
    unfolding a using strlenW_le [of s] by simp
  then show ?thesis
    using abc b ne by (simp add: get_escaped_string_def)
qed

theorem get_escaped_string_stops_at_nul_witness:
  "(0::int) \<le> 3
   \<and> map_option str_advance (get_escaped_string (Some [0x61, 0, 0x62]) 3) = Some 1
   \<and> map_option escaped (get_escaped_string (Some [0x61, 0, 0x62]) 3) = Some [0x61]"
  using get_escaped_string_stops_at_nul [of 3 "[0x61, 0, 0x62]"]
  by (simp add: strlenW_def xml_escape_def xml_entity_def)

section \<open>Properties of the buffer writes\<close>

lemma data_store_bytes: "data (store_bytes (grow_buffer e n) bs) = data e @ bs"
  by (simp add: store_bytes_def grow_buffer_def)

lemma written_store_bytes: "written (store_bytes (grow_buffer e n) bs) = written e + length bs"
  by (simp add: store_bytes_def grow_buffer_def)

lemma utf8_encode_nul: "utf8_encode (s @ [0]) = utf8_encode s @ [0]"
proof (induction s rule: utf8_encode.induct)
  case 1
  then show ?case by simp
next
  case (2 c)
  then show ?case by (simp add: is_low_surrogate_def)
next
  case (3 c d cs)
  then show ?case by simp
qed

lemma mem_units_exact: "mem_units (Some xs) (int (length xs)) = Some xs"
  by (simp add: mem_units_def)

lemma write_output_buffer_mode_exact:
  assumes "xs \<noteq> []"
  shows "write_output_buffer_mode b m (Some xs) (int (length xs)) =
     Some (b\<lparr> encoded := (if m \<noteq> OutputBuffer_Native \<and> code_page b = CP_UTF8
                           then store_bytes (grow_buffer (encoded b) (length (utf8_encode xs))) (utf8_encode xs)
                           else encoded b),
              utf16 := (if m \<noteq> OutputBuffer_Encoded
                        then store_bytes (grow_buffer (utf16 b) (2 * length xs)) (wchars_bytes xs)
                        else utf16 b) \<rparr>)"
  using assms
  by (cases m)
     (simp_all add: write_output_buffer_mode_def WideCharToMultiByte_def mem_units_exact
        nat_mult_distrib mult.commute)

lemma mem_units_strlenW:
  "mem_units (Some xs) (int (strlenW xs)) = Some (SysAllocString xs)"
proof -
  have "strlenW xs \<le> length xs" by (rule strlenW_le)
  moreover have "take (strlenW xs) xs = takeWhile (\<lambda>c. c \<noteq> 0) xs"
    unfolding strlenW_def by (rule takeWhile_eq_take [symmetric])
  ultimately show ?thesis
    by (simp add: mem_units_def SysAllocString_def)
qed

lemma strlenW_0_iff: "strlenW xs = 0 \<longleftrightarrow> SysAllocString xs = []"
  by (simp add: strlenW_def SysAllocString_def)

lemma length_SysAllocString: "length (SysAllocString xs) = strlenW xs"
  by (simp add: strlenW_def SysAllocString_def)

lemma write_output_buffer_mode_sentinel:
  "write_output_buffer_mode b m (Some xs) (- 1) =
     Some (b\<lparr> encoded := (if m \<noteq> OutputBuffer_Native \<and> code_page b = CP_UTF8
                           then store_bytes (grow_buffer (encoded b) (Suc (length (utf8_encode (SysAllocString xs)))))
                                  (utf8_encode (SysAllocString xs))
                           else encoded b),
              utf16 := (if m \<noteq> OutputBuffer_Encoded \<and> strlenW xs \<noteq> 0
                        then store_bytes (grow_buffer (utf16 b) (2 * strlenW xs)) (wchars_bytes (SysAllocString xs))
                        else utf16 b) \<rparr>)"
  by (cases m)
     (simp_all add: write_output_buffer_mode_def WideCharToMultiByte_def utf8_encode_nul
        mem_units_strlenW nat_mult_distrib mult.commute
        SysAllocString_def [symmetric])

lemma write_output_buffer_static:
  assumes "len = int (length xs)" and "xs \<noteq> []"
  shows "write_output_buffer b (Some xs) len =
     Some (b\<lparr> encoded := (if code_page b = CP_UTF8
                           then store_bytes (grow_buffer (encoded b) (length (utf8_encode xs))) (utf8_encode xs)
                           else encoded b),
              utf16 := store_bytes (grow_buffer (utf16 b) (2 * length xs)) (wchars_bytes xs) \<rparr>)"
  using assms write_output_buffer_mode_exact [of xs b OutputBuffer_Both]
  by (simp add: write_output_buffer_def)

lemma wchars_bytes_append: "wchars_bytes (a @ b) = wchars_bytes a @ wchars_bytes b"
  by (simp add: wchars_bytes_def)

lemma wchars_bytes_Nil: "wchars_bytes [] = []"
  by (simp add: wchars_bytes_def)

lemma length_wchars_bytes: "length (wchars_bytes s) = 2 * length s"
  by (induction s) (simp_all add: wchars_bytes_def wchar_bytes_def)

lemma statics_nonempty:
  "versionW \<noteq> []" "encodingW \<noteq> []" "standaloneW \<noteq> []" "yesW \<noteq> []" "noW \<noteq> []"
  "crlfW \<noteq> []" "utf16W \<noteq> []"
  by (simp_all add: versionW_def encodingW_def standaloneW_def yesW_def noW_def crlfW_def
      utf16W_def wstr_def)

section \<open>Properties of the configuration methods\<close>

lemma MXWriter_create_eq:
  "MXWriter_create v =
     (S_OK, Some \<lparr> class_version = v,
                   props = (\<lambda>p. VARIANT_FALSE)(MXWriter_BOM := VARIANT_TRUE),
                   prop_changed = False,
                   encoding = XML_CHAR_ENCODING_UTF16LE,
                   version = wstr ''1.0'',
                   element = None,
                   dest = None,
                   dest_written = 0,
                   buffer = \<lparr> utf16 = init_encoded_buffer, encoded = zero_encoded_buffer,
                              code_page = NOT 0 \<rparr> \<rparr>)"
  by (simp add: MXWriter_create_def xmlParseCharEncoding_def alloc_output_buffer_def
      SysAllocString_def wstr_def CP_UTF8_def)

lemma FAILED_E_INVALIDARG: "FAILED E_INVALIDARG"
  by (simp add: FAILED_def E_INVALIDARG_def)

lemma not_FAILED_S_OK: "\<not> FAILED S_OK"
  by (simp add: FAILED_def S_OK_def)

text \<open>
  C9, as stated: setting the version fails for an empty value. It does not: only the
  NULL pointer is rejected; on a new writer the empty string is accepted and replaces
  the stored version \<open>1.0\<close>.
\<close>

theorem put_version_empty_accepted:
  "fst (mxwriter_put_version (the (snd (MXWriter_create MSXML3))) (Some [])) = S_OK
   \<and> version (the (snd (MXWriter_create MSXML3))) = wstr ''1.0''
   \<and> version (snd (mxwriter_put_version (the (snd (MXWriter_create MSXML3))) (Some []))) = []"
  by (simp add: mxwriter_put_version_def MXWriter_create_eq SysAllocString_def)

text \<open>
  C9, amended. Setting the version fails exactly when the supplied pointer is NULL, and
  then leaves the writer unchanged; for every other value, the empty string included,
  the call succeeds and stores the value up to its terminator.
\<close>

theorem put_version_rejects_null_only:
  "FAILED (fst (mxwriter_put_version This None))
   \<and> snd (mxwriter_put_version This None) = This
   \<and> mxwriter_put_version This (Some v)
       = (S_OK, This\<lparr> version := takeWhile (\<lambda>c. c \<noteq> 0) v \<rparr>)"
  by (simp add: mxwriter_put_version_def FAILED_E_INVALIDARG SysAllocString_def)

lemma wchar_diff_0: "(int (unat (a::WCHAR)) - int (unat b) = 0) = (a = b)"
  by (auto simp: word_uint_eq_iff)

lemma wchar_neg_0: "(0 - int (unat (a::WCHAR)) = 0) = (a = 0)"
  using wchar_diff_0 [of 0 a] by auto

lemma wchar_pos_0: "(int (unat (a::WCHAR)) - 0 = 0) = (a = 0)"
  using wchar_diff_0 [of a 0] by auto

lemma strcmpW_eq_0: "strcmpW a b = 0 \<longleftrightarrow> SysAllocString a = SysAllocString b"
proof (induction a b rule: strcmpW.induct)
  case (1 a as b bs)
  show ?case
  proof (cases "a \<noteq> 0 \<and> a = b")
    case True
    with 1 show ?thesis by (simp add: SysAllocString_def)
  next
    case False
    then have "strcmpW (a # as) (b # bs) = int (unat a) - int (unat b)"
      by auto
    then have "strcmpW (a # as) (b # bs) = 0 \<longleftrightarrow> a = b"
      by (simp only: wchar_diff_0)
    with False show ?thesis
      by (auto simp: SysAllocString_def)
  qed
next
  case (2 s2)
  have "strcmpW [] s2 = 0 \<longleftrightarrow> peek s2 = 0"
    by (simp only: strcmpW.simps wchar_neg_0)
  then show ?case
    by (cases s2) (auto simp: SysAllocString_def)
next
  case (3 a as)
  have "strcmpW (a # as) [] = 0 \<longleftrightarrow> a = 0"
    by (simp only: strcmpW.simps wchar_pos_0)
  then show ?case
    by (auto simp: SysAllocString_def)
qed

lemma close_element_starttag_Some:
  "\<exists>b. close_element_starttag This = Some (This\<lparr> buffer := b \<rparr>)"
proof (cases "element This")
  case None
  then have "close_element_starttag This = Some (This\<lparr> buffer := buffer This \<rparr>)"
    by (simp add: close_element_starttag_def)
  then show ?thesis by blast
next
  case (Some e)
  have "\<exists>b. write_output_buffer (buffer This) (Some (wstr ''>'')) 1 = Some b"
    by (simp add: write_output_buffer_static wstr_def)
  then obtain b where "write_output_buffer (buffer This) (Some (wstr ''>'')) 1 = Some b"
    by blast
  with Some have "close_element_starttag This = Some (This\<lparr> buffer := b \<rparr>)"
    by (simp add: close_element_starttag_def)
  then show ?thesis by blast
qed

lemma flush_output_buffer_Some:
  "\<exists>hr t. flush_output_buffer This reply = Some (hr, t)"
proof -
  obtain b where "close_element_starttag This = Some (This\<lparr> buffer := b \<rparr>)"
    using close_element_starttag_Some by blast
  then show ?thesis
    by (cases "write_data_to_stream (This\<lparr>buffer := b, element := None\<rparr>) reply")
       (simp add: flush_output_buffer_def set_element_name_def)
qed

lemma reset_output_buffer_fields:
  "dest_written (reset_output_buffer t) = 0"
  "data (utf16 (buffer (reset_output_buffer t))) = []"
  "data (encoded (buffer (reset_output_buffer t))) = []"
  "written (utf16 (buffer (reset_output_buffer t))) = 0"
  "written (encoded (buffer (reset_output_buffer t))) = 0"
  "encoding (reset_output_buffer t) = encoding t"
  "dest (reset_output_buffer t) = dest t"
  "props (reset_output_buffer t) = props t"
  "prop_changed (reset_output_buffer t) = prop_changed t"
  "element (reset_output_buffer t) = element t"
  "version (reset_output_buffer t) = version t"
  "class_version (reset_output_buffer t) = class_version t"
  by (simp_all add: reset_output_buffer_def close_output_buffer_def init_encoded_buffer_def)

text \<open>
  C4, as stated: the encoding name is compared without regard to case. It is not: the
  name \<open>utf-8\<close> is rejected with \<open>E_INVALIDARG\<close> and the writer is left as it was.
\<close>

theorem put_encoding_case_sensitive:
  "mxwriter_put_encoding (the (snd (MXWriter_create MSXML3))) (wstr ''utf-8'') (S_OK, 0)
     = Some (E_INVALIDARG, the (snd (MXWriter_create MSXML3)))"
  by (simp add: mxwriter_put_encoding_def utf16W_def utf8W_def wstr_def)

text \<open>
  C4, amended. The names are compared exactly, unit by unit up to the terminator. A name
  other than \<open>UTF-16\<close> and \<open>UTF-8\<close> is rejected with \<open>E_INVALIDARG\<close> and the writer
  (buffers, sink offset, encoding and all the rest) is unchanged. One of the two names is
  accepted: the call flushes, returns the flush's failure if there is one, and otherwise
  returns \<open>S_OK\<close> with the encoding switched, the sink offset 0 and both buffers empty.
\<close>

theorem put_encoding_exact_names:
  "(SysAllocString name \<noteq> wstr ''UTF-16'' \<and> SysAllocString name \<noteq> wstr ''UTF-8''
      \<longrightarrow> mxwriter_put_encoding This name reply = Some (E_INVALIDARG, This))
   \<and> (SysAllocString name = wstr ''UTF-16'' \<or> SysAllocString name = wstr ''UTF-8''
      \<longrightarrow> (\<exists>hr t. flush_output_buffer This reply = Some (hr, t)
            \<and> (FAILED hr \<longrightarrow> mxwriter_put_encoding This name reply = Some (hr, t))
            \<and> (\<not> FAILED hr \<longrightarrow>
                 (\<exists>t'. mxwriter_put_encoding This name reply = Some (S_OK, t')
                    \<and> encoding t' = (if SysAllocString name = wstr ''UTF-8''
                                      then XML_CHAR_ENCODING_UTF8
                                      else XML_CHAR_ENCODING_UTF16LE)
                    \<and> dest_written t' = 0
                    \<and> data (utf16 (buffer t')) = []
                    \<and> data (encoded (buffer t')) = []))))"
proof -
  have c16: "SysAllocString utf16W = wstr ''UTF-16''"
    and c8: "SysAllocString utf8W = wstr ''UTF-8''"
    by (simp_all add: SysAllocString_def utf16W_def utf8W_def wstr_def)
  have test: "(strcmpW name utf16W = 0 \<or> strcmpW name utf8W = 0)
      = (SysAllocString name = wstr ''UTF-16'' \<or> SysAllocString name = wstr ''UTF-8'')"
    by (simp add: strcmpW_eq_0 c16 c8)
  obtain hr t where f: "flush_output_buffer This reply = Some (hr, t)"
    using flush_output_buffer_Some by blast
  have ne: "wstr ''UTF-8'' \<noteq> wstr ''UTF-16''"
    by (simp add: wstr_def)
  show ?thesis
    unfolding mxwriter_put_encoding_def test
    using f ne
    by (auto simp: reset_output_buffer_fields xmlParseCharEncoding_def
        SysAllocString_def [symmetric])
qed

lemma new_writer_flush:
  "flush_output_buffer (the (snd (MXWriter_create v))) reply
     = Some (S_OK, the (snd (MXWriter_create v)))"
  by (simp add: MXWriter_create_eq flush_output_buffer_def close_element_starttag_def
      set_element_name_def write_data_to_stream_def)

theorem put_encoding_exact_names_witness:
  "SysAllocString (wstr ''Shift-JIS'') \<noteq> wstr ''UTF-16''
   \<and> SysAllocString (wstr ''Shift-JIS'') \<noteq> wstr ''UTF-8''
   \<and> mxwriter_put_encoding (the (snd (MXWriter_create MSXML3))) (wstr ''Shift-JIS'') (S_OK, 0)
       = Some (E_INVALIDARG, the (snd (MXWriter_create MSXML3)))
   \<and> SysAllocString (wstr ''UTF-8'') = wstr ''UTF-8''
   \<and> \<not> FAILED S_OK
   \<and> map_option (\<lambda>(hr, t). (hr, encoding t, dest_written t))
        (mxwriter_put_encoding (the (snd (MXWriter_create MSXML3))) (wstr ''UTF-8'') (S_OK, 0))
       = Some (S_OK, XML_CHAR_ENCODING_UTF8, 0)"
proof -
  have a: "SysAllocString (wstr ''Shift-JIS'') \<noteq> wstr ''UTF-16''"
    and b: "SysAllocString (wstr ''Shift-JIS'') \<noteq> wstr ''UTF-8''"
    and c: "SysAllocString (wstr ''UTF-8'') = wstr ''UTF-8''"
    by (simp_all add: SysAllocString_def wstr_def)
  from put_encoding_exact_names
         [of "wstr ''Shift-JIS''" "the (snd (MXWriter_create MSXML3))" "(S_OK, 0)"] a b
  have 1: "mxwriter_put_encoding (the (snd (MXWriter_create MSXML3))) (wstr ''Shift-JIS'') (S_OK, 0)
       = Some (E_INVALIDARG, the (snd (MXWriter_create MSXML3)))"
    by blast
  from put_encoding_exact_names
         [of "wstr ''UTF-8''" "the (snd (MXWriter_create MSXML3))" "(S_OK, 0)"] c
  have 2: "map_option (\<lambda>(hr, t). (hr, encoding t, dest_written t))
        (mxwriter_put_encoding (the (snd (MXWriter_create MSXML3))) (wstr ''UTF-8'') (S_OK, 0))
       = Some (S_OK, XML_CHAR_ENCODING_UTF8, 0)"
    by (auto simp: new_writer_flush not_FAILED_S_OK)
  from a b c 1 2 not_FAILED_S_OK show ?thesis by blast
qed

section \<open>Evaluation on concrete inputs\<close>

lemmas eval_defs =
  new_writer_def new_stream_def MXWriter_create_eq
  mxwriter_put_output_def mxwriter_get_output_def mxwriter_put_encoding_def
  mxwriter_put_byteOrderMark_def mxwriter_put_indent_def mxwriter_put_standalone_def
  mxwriter_put_omitXMLDeclaration_def mxwriter_put_disableOutputEscaping_def
  mxwriter_put_version_def mxwriter_flush_def mxwriter_saxcontent_startDocument_def
  mxwriter_saxcontent_endDocument_def mxwriter_saxcontent_startElement_def
  mxwriter_saxcontent_endElement_def mxwriter_saxcontent_characters_def
  writer_set_property_def flush_output_buffer_def close_element_starttag_def
  set_element_name_def write_data_to_stream_def flush_source_def reset_output_buffer_def
  close_output_buffer_def write_prolog_buffer_def write_output_buffer_def
  write_output_buffer_mode_def WideCharToMultiByte_def mem_units_def SysAllocStringLen_def
  SysAllocString_def strlenW_def store_bytes_def grow_buffer_def init_encoded_buffer_def
  zero_encoded_buffer_def wchars_bytes_def wchar_bytes_def IStream_Write_def
  wstr_def S_OK_def E_FAIL_def E_NOTIMPL_def E_INVALIDARG_def FAILED_def CP_UTF8_def
  VARIANT_TRUE_def VARIANT_FALSE_def utf16W_def utf8W_def emptyW_def versionW_def
  encodingW_def standaloneW_def yesW_def noW_def crlfW_def utf16BOM_def
  xmlParseCharEncoding_def strncmpW_def Let_def

lemma run_calls_the: "\<not> Option.is_none (run_calls cs This) \<Longrightarrow> run_calls cs This = Some (the (run_calls cs This))"
  by (cases "run_calls cs This") (simp_all add: Option.is_none_def)

lemma reachable_new_writer: "reachable new_writer"
  by (rule reachable.created [of MSXML3 S_OK]) (simp add: new_writer_def MXWriter_create_eq)

lemma reachable_run_calls:
  "reachable This \<Longrightarrow> replies_within cs This \<Longrightarrow> run_calls cs This = Some t \<Longrightarrow> reachable t"
proof (induction cs arbitrary: This)
  case Nil
  then show ?case by simp
next
  case (Cons c cs)
  from Cons.prems(3) obtain hr t1 where e: "exec c This = Some (hr, t1)"
    and r: "run_calls cs t1 = Some t"
    by (auto split: option.splits)
  from Cons.prems(2) e have w: "reply_within c This" and ws: "replies_within cs t1"
    by auto
  from Cons.prems(1) w e have "reachable t1" by (rule reachable.called)
  from Cons.IH [OF this ws r] show ?case .
qed

section \<open>The XML declaration and \<^verbatim>\<open>startDocument\<close>\<close>

lemma buffer_appended_refl: "buffer_appended b [] [] b"
  by (simp add: buffer_appended_def wchars_bytes_Nil)

lemma buffer_appended_trans:
  "buffer_appended a us bs b \<Longrightarrow> buffer_appended b vs cs c
     \<Longrightarrow> buffer_appended a (us @ vs) (bs @ cs) c"
  by (simp add: buffer_appended_def wchars_bytes_append)

lemma write_static_appended:
  assumes "len = int (length xs)"
  shows "\<exists>b'. write_output_buffer b (Some xs) len = Some b'
            \<and> buffer_appended b xs (utf8_encode xs) b'"
proof (cases "xs = []")
  case True
  with assms show ?thesis
    by (simp add: write_output_buffer_def write_output_buffer_mode_def WideCharToMultiByte_def
        buffer_appended_def data_store_bytes written_store_bytes wchars_bytes_Nil)
next
  case False
  with assms show ?thesis
    by (simp add: write_output_buffer_static buffer_appended_def data_store_bytes
        written_store_bytes length_wchars_bytes)
qed

lemma write_native_appended:
  assumes "len = int (length xs)"
  shows "\<exists>b'. write_output_buffer_mode b OutputBuffer_Native (Some xs) len = Some b'
            \<and> buffer_appended b xs [] b'"
proof (cases "xs = []")
  case True
  with assms show ?thesis
    by (simp add: write_output_buffer_mode_def buffer_appended_def wchars_bytes_Nil)
next
  case False
  with assms show ?thesis
    by (simp add: write_output_buffer_mode_exact buffer_appended_def data_store_bytes
        written_store_bytes length_wchars_bytes)
qed

lemma write_sentinel_appended:
  "\<exists>b'. write_output_buffer b (Some xs) (- 1) = Some b'
        \<and> buffer_appended b (SysAllocString xs) (utf8_encode (SysAllocString xs)) b'"
  by (simp add: write_output_buffer_def write_output_buffer_mode_sentinel buffer_appended_def
      data_store_bytes written_store_bytes length_wchars_bytes length_SysAllocString
      strlenW_0_iff wchars_bytes_Nil)

lemma write_encoded_sentinel_appended:
  "\<exists>b'. write_output_buffer_mode b OutputBuffer_Encoded (Some xs) (- 1) = Some b'
        \<and> buffer_appended b [] (utf8_encode (SysAllocString xs)) b'"
  by (simp add: write_output_buffer_mode_sentinel buffer_appended_def
      data_store_bytes written_store_bytes wchars_bytes_Nil)

lemma SysAllocString_get_encoding_name:
  "SysAllocString (get_encoding_name e) = get_encoding_name e"
  by (cases e) (simp_all add: SysAllocString_def utf8W_def utf16W_def wstr_def)

lemma write_prolog_buffer_appended:
  "\<exists>b'. write_prolog_buffer This = Some b'
      \<and> buffer_appended (buffer This) (prolog_native This) (prolog_encoded This) b'"
proof -
  let ?sa = "if props This MXWriter_Standalone = VARIANT_TRUE then yesW else noW"
  obtain b1 where w1: "write_output_buffer (buffer This) (Some versionW) (int (length versionW)) = Some b1"
    and a1: "buffer_appended (buffer This) versionW (utf8_encode versionW) b1"
    using write_static_appended [OF refl] by blast
  obtain b2 where w2: "write_output_buffer b1 (Some (version This)) (- 1) = Some b2"
    and a2: "buffer_appended b1 (SysAllocString (version This))
               (utf8_encode (SysAllocString (version This))) b2"
    using write_sentinel_appended by blast
  obtain b3 where w3: "write_output_buffer b2 (Some (wstr [CHR 0x22])) 1 = Some b3"
    and a3: "buffer_appended b2 (wstr [CHR 0x22]) (utf8_encode (wstr [CHR 0x22])) b3"
    using write_static_appended [of 1 "wstr [CHR 0x22]" b2] by (auto simp: wstr_def)
  obtain b4 where w4: "write_output_buffer b3 (Some encodingW) (int (length encodingW)) = Some b4"
    and a4: "buffer_appended b3 encodingW (utf8_encode encodingW) b4"
    using write_static_appended [OF refl] by blast
  obtain b5 where w5: "write_output_buffer_mode b4 OutputBuffer_Native (Some utf16W)
                         (int (length utf16W)) = Some b5"
    and a5: "buffer_appended b4 utf16W [] b5"
    using write_native_appended [OF refl] by blast
  obtain b6 where w6: "write_output_buffer_mode b5 OutputBuffer_Encoded
                         (Some (get_encoding_name (encoding This))) (- 1) = Some b6"
    and a6: "buffer_appended b5 [] (utf8_encode (get_encoding_name (encoding This))) b6"
    using write_encoded_sentinel_appended [of b5 "get_encoding_name (encoding This)"]
    by (auto simp: SysAllocString_get_encoding_name)
  obtain b7 where w7: "write_output_buffer b6 (Some (wstr [CHR 0x22])) 1 = Some b7"
    and a7: "buffer_appended b6 (wstr [CHR 0x22]) (utf8_encode (wstr [CHR 0x22])) b7"
    using write_static_appended [of 1 "wstr [CHR 0x22]" b6] by (auto simp: wstr_def)
  obtain b8 where w8: "write_output_buffer b7 (Some standaloneW) (int (length standaloneW)) = Some b8"
    and a8: "buffer_appended b7 standaloneW (utf8_encode standaloneW) b8"
    using write_static_appended [OF refl] by blast
  obtain b9 where w9: "write_output_buffer b8 (Some ?sa) (int (length ?sa)) = Some b9"
    and a9: "buffer_appended b8 ?sa (utf8_encode ?sa) b9"
    using write_static_appended [OF refl] by blast
  obtain b10 where w10: "write_output_buffer b9 (Some crlfW) (int (length crlfW)) = Some b10"
    and a10: "buffer_appended b9 crlfW (utf8_encode crlfW) b10"
    using write_static_appended [OF refl] by blast
  have w9': "(if props This MXWriter_Standalone = VARIANT_TRUE
              then write_output_buffer b8 (Some yesW) (int (length yesW))
              else write_output_buffer b8 (Some noW) (int (length noW))) = Some b9"
    using w9 by (simp split: if_splits)
  have run: "write_prolog_buffer This = Some b10"
    by (simp add: write_prolog_buffer_def w1 w2 w3 w4 w5 w6 w7 w8 w9' w10)
  note chain = buffer_appended_trans [OF buffer_appended_trans [OF buffer_appended_trans
      [OF buffer_appended_trans [OF buffer_appended_trans [OF buffer_appended_trans
      [OF buffer_appended_trans [OF buffer_appended_trans [OF buffer_appended_trans
      [OF a1 a2] a3] a4] a5] a6] a7] a8] a9] a10]
  have n: "versionW @ SysAllocString (version This) @ wstr [CHR 0x22] @ encodingW @ utf16W @ []
             @ wstr [CHR 0x22] @ standaloneW @ ?sa @ crlfW = prolog_native This"
    by (simp add: prolog_native_def versionW_def encodingW_def utf16W_def standaloneW_def
        yesW_def noW_def crlfW_def wstr_def)
  have e: "utf8_encode versionW @ utf8_encode (SysAllocString (version This))
             @ utf8_encode (wstr [CHR 0x22]) @ utf8_encode encodingW @ []
             @ utf8_encode (get_encoding_name (encoding This)) @ utf8_encode (wstr [CHR 0x22])
             @ utf8_encode standaloneW @ utf8_encode ?sa @ utf8_encode crlfW
           = prolog_encoded This"
    by (simp add: prolog_encoded_def versionW_def encodingW_def standaloneW_def
        yesW_def noW_def crlfW_def)
  from chain have "buffer_appended (buffer This) (prolog_native This) (prolog_encoded This) b10"
    by (simp only: append_assoc n e)
  with run show ?thesis by blast
qed

lemma startDocument_result:
  "\<exists>t. mxwriter_saxcontent_startDocument This = Some (S_OK, t)
      \<and> \<not> prop_changed t
      \<and> props t = props This \<and> encoding t = encoding This \<and> element t = element This
      \<and> version t = version This \<and> class_version t = class_version This
      \<and> dest_written t = (if prop_changed This then 0 else dest_written This)
      \<and> buffer_appended
           (if prop_changed This then buffer (reset_output_buffer This) else buffer This)
           (if props This MXWriter_OmitXmlDecl = VARIANT_TRUE then [] else prolog_native This)
           (if props This MXWriter_OmitXmlDecl = VARIANT_TRUE then [] else prolog_encoded This)
           (buffer t)
      \<and> dest t =
           (if props This MXWriter_OmitXmlDecl = VARIANT_TRUE then dest This
            else case dest This of
                   None \<Rightarrow> None
                 | Some stm \<Rightarrow>
                     (if encoding This = XML_CHAR_ENCODING_UTF16LE
                         \<and> props This MXWriter_BOM = VARIANT_TRUE
                      then Some (IStream_Write stm utf16BOM) else Some stm))"
proof -
  let ?t0 = "if prop_changed This then (reset_output_buffer This)\<lparr> prop_changed := False \<rparr>
             else This"
  have t0: "\<not> prop_changed ?t0" "props ?t0 = props This" "encoding ?t0 = encoding This"
    "element ?t0 = element This" "version ?t0 = version This"
    "class_version ?t0 = class_version This" "dest ?t0 = dest This"
    "dest_written ?t0 = (if prop_changed This then 0 else dest_written This)"
    "buffer ?t0 = (if prop_changed This then buffer (reset_output_buffer This) else buffer This)"
    by (simp_all add: reset_output_buffer_fields)
  have pn: "prolog_native ?t0 = prolog_native This"
    and pe: "prolog_encoded ?t0 = prolog_encoded This"
    by (simp_all add: prolog_native_def prolog_encoded_def t0)
  show ?thesis
  proof (cases "props This MXWriter_OmitXmlDecl = VARIANT_TRUE")
    case True
    then have "mxwriter_saxcontent_startDocument This = Some (S_OK, ?t0)"
      by (simp add: mxwriter_saxcontent_startDocument_def t0 Let_def)
    with True t0 show ?thesis
      by (auto simp: buffer_appended_refl)
  next
    case False
    obtain b where w: "write_prolog_buffer ?t0 = Some b"
      and a: "buffer_appended (buffer ?t0) (prolog_native ?t0) (prolog_encoded ?t0) b"
      using write_prolog_buffer_appended by blast
    show ?thesis
    proof (cases "dest This")
      case None
      with False w t0 have "mxwriter_saxcontent_startDocument This
          = Some (S_OK, ?t0\<lparr> buffer := b \<rparr>)"
        by (simp add: mxwriter_saxcontent_startDocument_def Let_def)
      with False None a t0 pn pe show ?thesis
        by (auto simp: )
    next
      case (Some stm)
      with False w t0 have "mxwriter_saxcontent_startDocument This
          = Some (S_OK, if encoding This = XML_CHAR_ENCODING_UTF16LE
                           \<and> props This MXWriter_BOM = VARIANT_TRUE
                        then ?t0\<lparr> buffer := b, dest := Some (IStream_Write stm utf16BOM) \<rparr>
                        else ?t0\<lparr> buffer := b \<rparr>)"
        by (simp add: mxwriter_saxcontent_startDocument_def Let_def)
      with False Some a t0 pn pe show ?thesis
        by (auto simp: )
    qed
  qed
qed

text \<open>
  C10. When the omit-declaration property is set (\<open>VARIANT_TRUE\<close>), \<^verbatim>\<open>startDocument\<close>
  succeeds and emits nothing: the destination stream receives no call (so no byte-order
  mark, whatever the encoding and the byte-order-mark property are), and nothing is
  appended to either buffer; the buffers are as before, or empty when the pending
  property change reset them.
\<close>

theorem startDocument_omit_declaration:
  assumes "props This MXWriter_OmitXmlDecl = VARIANT_TRUE"
  shows "\<exists>t. mxwriter_saxcontent_startDocument This = Some (S_OK, t)
      \<and> dest t = dest This
      \<and> data (utf16 (buffer t)) = (if prop_changed This then [] else data (utf16 (buffer This)))
      \<and> written (utf16 (buffer t))
          = (if prop_changed This then 0 else written (utf16 (buffer This)))
      \<and> data (encoded (buffer t))
          = (if prop_changed This then [] else data (encoded (buffer This)))
      \<and> written (encoded (buffer t))
          = (if prop_changed This then 0 else written (encoded (buffer This)))"
proof -
  from startDocument_result [of This] assms obtain t where
    s: "mxwriter_saxcontent_startDocument This = Some (S_OK, t)"
    and d: "dest t = dest This"
    and a: "buffer_appended
           (if prop_changed This then buffer (reset_output_buffer This) else buffer This)
           [] [] (buffer t)"
    by auto
  from a have "data (utf16 (buffer t)) = (if prop_changed This then [] else data (utf16 (buffer This)))"
    "written (utf16 (buffer t)) = (if prop_changed This then 0 else written (utf16 (buffer This)))"
    "data (encoded (buffer t)) = (if prop_changed This then [] else data (encoded (buffer This)))"
    "written (encoded (buffer t)) = (if prop_changed This then 0 else written (encoded (buffer This)))"
    by (simp_all add: buffer_appended_def reset_output_buffer_fields wchars_bytes_Nil
        split: if_splits)
  with s d show ?thesis by blast
qed

theorem startDocument_omit_declaration_witness:
  "props (the (run_calls [Put_output (VT_UNKNOWN (Some new_stream)) (S_OK, 0),
                          Put_omitXMLDeclaration VARIANT_TRUE] new_writer)) MXWriter_OmitXmlDecl
     = VARIANT_TRUE
   \<and> props (the (run_calls [Put_output (VT_UNKNOWN (Some new_stream)) (S_OK, 0),
                          Put_omitXMLDeclaration VARIANT_TRUE] new_writer)) MXWriter_BOM
     = VARIANT_TRUE
   \<and> encoding (the (run_calls [Put_output (VT_UNKNOWN (Some new_stream)) (S_OK, 0),
                          Put_omitXMLDeclaration VARIANT_TRUE] new_writer))
     = XML_CHAR_ENCODING_UTF16LE
   \<and> map_option (\<lambda>(hr, t). (hr, dest t, data (utf16 (buffer t))))
        (mxwriter_saxcontent_startDocument
          (the (run_calls [Put_output (VT_UNKNOWN (Some new_stream)) (S_OK, 0),
                           Put_omitXMLDeclaration VARIANT_TRUE] new_writer)))
     = Some (S_OK, Some new_stream, [])"
proof -
  let ?s = "the (run_calls [Put_output (VT_UNKNOWN (Some new_stream)) (S_OK, 0),
                          Put_omitXMLDeclaration VARIANT_TRUE] new_writer)"
  have h: "props ?s MXWriter_OmitXmlDecl = VARIANT_TRUE"
    and b: "props ?s MXWriter_BOM = VARIANT_TRUE"
    and e: "encoding ?s = XML_CHAR_ENCODING_UTF16LE"
    and d: "dest ?s = Some new_stream"
    and c: "prop_changed ?s"
    by (simp_all add: eval_defs)
  from startDocument_omit_declaration [OF h] d c
  have "map_option (\<lambda>(hr, t). (hr, dest t, data (utf16 (buffer t))))
        (mxwriter_saxcontent_startDocument ?s) = Some (S_OK, Some new_stream, [])"
    by auto
  with h b e show ?thesis by blast
qed

text \<open>
  C7. Each of the five property setters changes the property value and sets the changed
  flag, and nothing else: buffers and sink offset are as before. \<^verbatim>\<open>startDocument\<close>
  always leaves the flag cleared; when the flag was set it discards the buffered content
  and zeroes the sink offset before it writes the declaration, and when the flag was not
  set it keeps both and appends the declaration to what is buffered.
\<close>

theorem property_setters_defer_reset:
  "snd (mxwriter_put_byteOrderMark This v)
     = This\<lparr> props := (props This)(MXWriter_BOM := v), prop_changed := True \<rparr>
   \<and> snd (mxwriter_put_disableOutputEscaping This v)
     = This\<lparr> props := (props This)(MXWriter_DisableEscaping := v), prop_changed := True \<rparr>
   \<and> snd (mxwriter_put_indent This v)
     = This\<lparr> props := (props This)(MXWriter_Indent := v), prop_changed := True \<rparr>
   \<and> snd (mxwriter_put_omitXMLDeclaration This v)
     = This\<lparr> props := (props This)(MXWriter_OmitXmlDecl := v), prop_changed := True \<rparr>
   \<and> snd (mxwriter_put_standalone This v)
     = This\<lparr> props := (props This)(MXWriter_Standalone := v), prop_changed := True \<rparr>
   \<and> (\<exists>t. mxwriter_saxcontent_startDocument This = Some (S_OK, t)
          \<and> \<not> prop_changed t
          \<and> dest_written t = (if prop_changed This then 0 else dest_written This)
          \<and> data (utf16 (buffer t))
              = (if prop_changed This then [] else data (utf16 (buffer This)))
                @ wchars_bytes (if props This MXWriter_OmitXmlDecl = VARIANT_TRUE then []
                                else prolog_native This)
          \<and> data (encoded (buffer t))
              = (if prop_changed This then [] else data (encoded (buffer This)))
                @ (if code_page (buffer t) = CP_UTF8
                      \<and> props This MXWriter_OmitXmlDecl \<noteq> VARIANT_TRUE
                   then prolog_encoded This else []))"
proof -
  from startDocument_result [of This] obtain t where
    s: "mxwriter_saxcontent_startDocument This = Some (S_OK, t)"
    and c: "\<not> prop_changed t"
    and d: "dest_written t = (if prop_changed This then 0 else dest_written This)"
    and a: "buffer_appended
           (if prop_changed This then buffer (reset_output_buffer This) else buffer This)
           (if props This MXWriter_OmitXmlDecl = VARIANT_TRUE then [] else prolog_native This)
           (if props This MXWriter_OmitXmlDecl = VARIANT_TRUE then [] else prolog_encoded This)
           (buffer t)"
    by blast
  from a have n: "data (utf16 (buffer t))
              = (if prop_changed This then [] else data (utf16 (buffer This)))
                @ wchars_bytes (if props This MXWriter_OmitXmlDecl = VARIANT_TRUE then []
                                else prolog_native This)"
    by (simp add: buffer_appended_def reset_output_buffer_fields split: if_splits)
  from a have e: "data (encoded (buffer t))
              = (if prop_changed This then [] else data (encoded (buffer This)))
                @ (if code_page (buffer t) = CP_UTF8
                      \<and> props This MXWriter_OmitXmlDecl \<noteq> VARIANT_TRUE
                   then prolog_encoded This else [])"
    by (auto simp: buffer_appended_def reset_output_buffer_fields split: if_splits)
  from s c d n e have "\<exists>t. mxwriter_saxcontent_startDocument This = Some (S_OK, t)
          \<and> \<not> prop_changed t
          \<and> dest_written t = (if prop_changed This then 0 else dest_written This)
          \<and> data (utf16 (buffer t))
              = (if prop_changed This then [] else data (utf16 (buffer This)))
                @ wchars_bytes (if props This MXWriter_OmitXmlDecl = VARIANT_TRUE then []
                                else prolog_native This)
          \<and> data (encoded (buffer t))
              = (if prop_changed This then [] else data (encoded (buffer This)))
                @ (if code_page (buffer t) = CP_UTF8
                      \<and> props This MXWriter_OmitXmlDecl \<noteq> VARIANT_TRUE
                   then prolog_encoded This else [])"
    by blast
  then show ?thesis
    by (simp add: mxwriter_put_byteOrderMark_def mxwriter_put_disableOutputEscaping_def
        mxwriter_put_indent_def mxwriter_put_omitXMLDeclaration_def
        mxwriter_put_standalone_def writer_set_property_def)
qed

theorem property_setters_defer_reset_witness:
  \<open>dest_written (the (run_calls [Put_output (VT_UNKNOWN (Some new_stream)) (S_OK, 0),
                    Characters (Some (wstr ''ab'')) 2, Flush (S_OK, 4)] new_writer)) = 4
   \<and> bytes_wchars (data (utf16 (buffer (snd (mxwriter_put_standalone
        (the (run_calls [Put_output (VT_UNKNOWN (Some new_stream)) (S_OK, 0),
                    Characters (Some (wstr ''ab'')) 2, Flush (S_OK, 4)] new_writer))
        VARIANT_TRUE))))) = wstr ''ab''
   \<and> dest_written (snd (mxwriter_put_standalone
        (the (run_calls [Put_output (VT_UNKNOWN (Some new_stream)) (S_OK, 0),
                    Characters (Some (wstr ''ab'')) 2, Flush (S_OK, 4)] new_writer))
        VARIANT_TRUE)) = 4
   \<and> map_option (\<lambda>(hr, t). (prop_changed t, dest_written t, bytes_wchars (data (utf16 (buffer t)))))
        (mxwriter_saxcontent_startDocument (snd (mxwriter_put_standalone
          (the (run_calls [Put_output (VT_UNKNOWN (Some new_stream)) (S_OK, 0),
                    Characters (Some (wstr ''ab'')) 2, Flush (S_OK, 4)] new_writer))
          VARIANT_TRUE)))
     = Some (False, 0,
             wstr ''<?xml version="1.0" encoding="UTF-16" standalone="yes"?>'' @ [0x0D, 0x0A])\<close>
proof -
  let ?s = "the (run_calls [Put_output (VT_UNKNOWN (Some new_stream)) (S_OK, 0),
                    Characters (Some (wstr ''ab'')) 2, Flush (S_OK, 4)] new_writer)"
  let ?p = "snd (mxwriter_put_standalone ?s VARIANT_TRUE)"
  have s1: "dest_written ?s = 4" and s2: "bytes_wchars (data (utf16 (buffer ?s))) = wstr ''ab''"
    by (simp_all add: eval_defs)
  have p: "?p = ?s\<lparr> props := (props ?s)(MXWriter_Standalone := VARIANT_TRUE),
                     prop_changed := True \<rparr>"
    using property_setters_defer_reset [of ?s VARIANT_TRUE] by blast
  have p1: "dest_written ?p = 4" and p2: "bytes_wchars (data (utf16 (buffer ?p))) = wstr ''ab''"
    and p3: "prop_changed ?p" and p4: "props ?p MXWriter_OmitXmlDecl \<noteq> VARIANT_TRUE"
    and p5: \<open>bytes_wchars (wchars_bytes (prolog_native ?p))
           = wstr ''<?xml version="1.0" encoding="UTF-16" standalone="yes"?>'' @ [0x0D, 0x0A]\<close>
    unfolding p using s1 s2
    by (simp_all add: prolog_native_def eval_defs)
  from property_setters_defer_reset [of ?p VARIANT_TRUE] obtain t where
    "mxwriter_saxcontent_startDocument ?p = Some (S_OK, t)"
    "\<not> prop_changed t" "dest_written t = 0"
    "data (utf16 (buffer t)) = wchars_bytes (prolog_native ?p)"
    using p3 p4 by auto
  with p5 have \<open>map_option (\<lambda>(hr, t). (prop_changed t, dest_written t, bytes_wchars (data (utf16 (buffer t)))))
        (mxwriter_saxcontent_startDocument ?p)
     = Some (False, 0,
             wstr ''<?xml version="1.0" encoding="UTF-16" standalone="yes"?>'' @ [0x0D, 0x0A])\<close>
    by simp
  with s1 p1 p2 show ?thesis by blast
qed

section \<open>The sink offset never passes the written count\<close>

lemma buffer_le_refl: "buffer_le b b"
  by (simp add: buffer_le_def)

lemma buffer_le_trans: "buffer_le a b \<Longrightarrow> buffer_le b c \<Longrightarrow> buffer_le a c"
  by (auto simp: buffer_le_def)

lemma write_output_buffer_mode_le:
  assumes "write_output_buffer_mode b m d len = Some b'"
  shows "buffer_le b b'"
proof -
  from assms obtain b1 where
    e: "(if output_mode_bits m
               AND (output_mode_bits OutputBuffer_Encoded OR output_mode_bits OutputBuffer_Both) \<noteq> 0
             \<and> code_page b = CP_UTF8
          then Option.bind (WideCharToMultiByte d len) (\<lambda>bytes.
            Some (b\<lparr> encoded :=
                    store_bytes (grow_buffer (encoded b) (length bytes))
                      (if len = - 1 then take (length bytes - 1) bytes else bytes) \<rparr>))
          else Some b) = Some b1"
    and n: "(if output_mode_bits m
            AND (output_mode_bits OutputBuffer_Native OR output_mode_bits OutputBuffer_Both) \<noteq> 0
       then Option.bind (if len = - 1 then map_option (\<lambda>s. int (strlenW s)) d else Some len)
         (\<lambda>length1. if length1 \<noteq> 0 then Option.bind (mem_units d length1) (\<lambda>units.
           Some (b1\<lparr> utf16 :=
                   store_bytes (grow_buffer (utf16 b1) (nat (length1 * 2)))
                     (wchars_bytes units) \<rparr>))
         else Some b1)
       else Some b1) = Some b'"
    unfolding write_output_buffer_mode_def by (auto split: bind_splits)
  from e have 1: "buffer_le b b1"
    by (auto simp: buffer_le_def written_store_bytes split: if_splits bind_splits)
  from n have 2: "buffer_le b1 b'"
    by (auto simp: buffer_le_def written_store_bytes split: if_splits bind_splits)
  from 1 2 show ?thesis by (rule buffer_le_trans)
qed

lemma write_output_buffer_le: "write_output_buffer b d len = Some b' \<Longrightarrow> buffer_le b b'"
  unfolding write_output_buffer_def by (rule write_output_buffer_mode_le)

lemma extends_refl: "extends This This"
  by (simp add: extends_def buffer_le_refl)

lemma extends_trans: "extends a b \<Longrightarrow> extends b c \<Longrightarrow> extends a c"
  by (auto simp: extends_def intro: buffer_le_trans)

lemma extends_buffer:
  "buffer_le (buffer This) b \<Longrightarrow> extends This (This\<lparr> buffer := b \<rparr>)"
  by (simp add: extends_def)

lemma offset_ok_extends: "offset_ok This \<Longrightarrow> extends This t \<Longrightarrow> offset_ok t"
  by (auto simp: offset_ok_def extends_def flush_source_def buffer_le_def)

lemma close_element_starttag_extends:
  "close_element_starttag This = Some t \<Longrightarrow> extends This t"
  by (auto simp: close_element_starttag_def extends_refl
      split: option.splits intro!: extends_buffer write_output_buffer_le)

lemma set_element_name_extends:
  "set_element_name This name len = Some t \<Longrightarrow> extends This t"
  by (auto simp: set_element_name_def extends_def buffer_le_refl split: option.splits)

lemma write_data_to_stream_offset_ok:
  assumes "offset_ok This" and "snd reply \<le> written (flush_source This) - dest_written This"
  shows "offset_ok (snd (write_data_to_stream This reply))"
  using assms
  by (cases reply)
     (auto simp: write_data_to_stream_def offset_ok_def flush_source_def Let_def
        split: option.splits)

lemma flush_output_buffer_offset_ok:
  assumes "offset_ok This" and "snd reply \<le> offered This"
    and "flush_output_buffer This reply = Some (hr, t)"
  shows "offset_ok t"
proof -
  from assms(3) obtain t1 where c: "close_element_starttag This = Some t1"
    and r: "(hr, t) = write_data_to_stream (t1\<lparr> element := None \<rparr>) reply"
    by (auto simp: flush_output_buffer_def set_element_name_def split: bind_splits)
  let ?t2 = "t1\<lparr> element := None \<rparr>"
  have "extends This t1" using c by (rule close_element_starttag_extends)
  then have ok1: "offset_ok t1" using assms(1) offset_ok_extends by blast
  then have ok2: "offset_ok ?t2"
    by (auto simp: offset_ok_def flush_source_def split: if_splits)
  have "snd reply \<le> written (flush_source ?t2) - dest_written ?t2"
    using assms(2) c by (auto simp: offered_def flush_source_def split: if_splits)
  with ok2 have "offset_ok (snd (write_data_to_stream ?t2 reply))"
    by (rule write_data_to_stream_offset_ok)
  with r show ?thesis by (metis snd_conv)
qed

lemma offset_ok_reset: "offset_ok (reset_output_buffer t)"
  by (simp add: offset_ok_def reset_output_buffer_fields)

lemma offset_ok_reset_dest: "offset_ok ((reset_output_buffer t)\<lparr> dest := d \<rparr>)"
  using offset_ok_reset [of t] by (auto simp: offset_ok_def flush_source_def split: if_splits)

lemma write_attributes_le:
  "write_attributes attr i n b = Some (hr, b') \<Longrightarrow> buffer_le b b'"
proof (induction attr i n b rule: write_attributes.induct)
  case (1 attr i length1 b)
  show ?case
  proof (cases "i < length1")
    case False
    with "1.prems" show ?thesis
      by (simp add: write_attributes.simps [of attr i] buffer_le_refl)
  next
    case True
    obtain hq sq lq where q: "getQName attr i = (hq, sq, lq)"
      by (cases "getQName attr i") auto
    show ?thesis
    proof (cases "FAILED hq")
      case True
      with "1.prems" \<open>i < length1\<close> q show ?thesis
        by (simp add: write_attributes.simps [of attr i] buffer_le_refl)
    next
      case fq: False
      obtain hv sv lv where v: "getValue attr i = (hv, sv, lv)"
        by (cases "getValue attr i") auto
      from "1.prems" \<open>i < length1\<close> q fq obtain b1 b2 b3 where
        w1: "write_output_buffer b (Some (wstr '' '')) 1 = Some b1"
        and w2: "write_output_buffer b1 sq lq = Some b2"
        and w3: "write_output_buffer b2 (Some (wstr [CHR ''='', CHR 0x22])) 2 = Some b3"
        and rest: "(case getValue attr i of (hr, str, len) \<Rightarrow>
                if FAILED hr then Some (hr, b3)
                else Option.bind (get_escaped_string str len) (\<lambda>e.
                  Option.bind (if escaped_len e = - 1 then None
                         else write_output_buffer b3 (Some (escaped e)) (escaped_len e)) (\<lambda>b.
                  Option.bind (write_output_buffer b (Some (wstr [CHR 0x22])) 1) (\<lambda>b.
                  write_attributes attr (i + 1) length1 b)))) = Some (hr, b')"
        by (auto simp add: write_attributes.simps [of attr i] split: bind_splits)
      have le3: "buffer_le b b3"
        using w1 w2 w3 by (blast intro: buffer_le_trans write_output_buffer_le)
      show ?thesis
      proof (cases "FAILED hv")
        case True
        with rest v le3 show ?thesis by simp
      next
        case fv: False
        from rest v fv obtain e b4 b5 where
          e: "get_escaped_string sv lv = Some e"
          and ne: "escaped_len e \<noteq> - 1"
          and w4: "write_output_buffer b3 (Some (escaped e)) (escaped_len e) = Some b4"
          and w5: "write_output_buffer b4 (Some (wstr [CHR 0x22])) 1 = Some b5"
          and r: "write_attributes attr (i + 1) length1 b5 = Some (hr, b')"
          by (auto split: bind_splits if_splits)
        have "buffer_le b5 b'"
          using "1.IH" [OF \<open>i < length1\<close> q [symmetric] _ fq w1 w2 w3 v [symmetric] _ fv e _ w5 r]
            w4 ne by simp
        moreover have "buffer_le b3 b5"
          using w4 w5 by (blast intro: buffer_le_trans write_output_buffer_le)
        ultimately show ?thesis
          using le3 by (blast intro: buffer_le_trans)
      qed
    qed
  qed
qed

lemma bind_SomeE:
  assumes "Option.bind f g = Some y"
  obtains x where "f = Some x" and "g x = Some y"
  using assms by (auto simp: bind_eq_Some_conv)

lemma startElement_extends:
  assumes "mxwriter_saxcontent_startElement This u nu l nl q nq a = Some (hr, t)"
  shows "extends This t"
proof (cases "(u = None \<or> l = None \<or> q = None) \<and> class_version This \<noteq> MSXML6")
  case True
  with assms show ?thesis
    by (simp add: mxwriter_saxcontent_startElement_def extends_refl)
next
  case False
  from assms have "(if (u = None \<or> l = None \<or> q = None) \<and> class_version This \<noteq> MSXML6
      then Some (E_INVALIDARG, This)
      else Option.bind (close_element_starttag This) (\<lambda>t.
        Option.bind (set_element_name t (Some (case q of None \<Rightarrow> emptyW | Some q \<Rightarrow> q))
               (case q of None \<Rightarrow> 0 | Some q \<Rightarrow> nq)) (\<lambda>t.
        Option.bind (write_output_buffer (buffer t) (Some (wstr ''<'')) 1) (\<lambda>b.
        Option.bind (write_output_buffer b q nq) (\<lambda>b.
        (case a of
           None \<Rightarrow> Some (S_OK, t\<lparr> buffer := b \<rparr>)
         | Some a \<Rightarrow>
             (case getLength a of (hr, length1) \<Rightarrow>
                if FAILED hr then Some (hr, t\<lparr> buffer := b \<rparr>)
                else Option.bind (write_attributes a 0 length1 b) (\<lambda>(hr, b).
                  Some (hr, t\<lparr> buffer := b \<rparr>))))))))) = Some (hr, t)"
    unfolding mxwriter_saxcontent_startElement_def .
  then have "Option.bind (close_element_starttag This) (\<lambda>t.
        Option.bind (set_element_name t (Some (case q of None \<Rightarrow> emptyW | Some q \<Rightarrow> q))
               (case q of None \<Rightarrow> 0 | Some q \<Rightarrow> nq)) (\<lambda>t.
        Option.bind (write_output_buffer (buffer t) (Some (wstr ''<'')) 1) (\<lambda>b.
        Option.bind (write_output_buffer b q nq) (\<lambda>b.
        (case a of
           None \<Rightarrow> Some (S_OK, t\<lparr> buffer := b \<rparr>)
         | Some a \<Rightarrow>
             (case getLength a of (hr, length1) \<Rightarrow>
                if FAILED hr then Some (hr, t\<lparr> buffer := b \<rparr>)
                else Option.bind (write_attributes a 0 length1 b) (\<lambda>(hr, b).
                  Some (hr, t\<lparr> buffer := b \<rparr>)))))))) = Some (hr, t)"
    using False by (simp only: if_False)
  then obtain t1 t2 b1 b2 where
    c: "close_element_starttag This = Some t1"
    and s: "set_element_name t1 (Some (case q of None \<Rightarrow> emptyW | Some q' \<Rightarrow> q'))
              (case q of None \<Rightarrow> 0 | Some q' \<Rightarrow> nq) = Some t2"
    and w1: "write_output_buffer (buffer t2) (Some (wstr ''<'')) 1 = Some b1"
    and w2: "write_output_buffer b1 q nq = Some b2"
    and r: "(case a of
           None \<Rightarrow> Some (S_OK, t2\<lparr> buffer := b2 \<rparr>)
         | Some a' \<Rightarrow>
             (case getLength a' of (hr, length1) \<Rightarrow>
                if FAILED hr then Some (hr, t2\<lparr> buffer := b2 \<rparr>)
                else Option.bind (write_attributes a' 0 length1 b2) (\<lambda>(hr, b).
                  Some (hr, t2\<lparr> buffer := b \<rparr>)))) = Some (hr, t)"
    by (elim bind_SomeE) blast
  have e2: "extends This t2"
    using c s by (blast intro: extends_trans close_element_starttag_extends
        set_element_name_extends)
  have le2: "buffer_le (buffer t2) b2"
    using w1 w2 by (blast intro: buffer_le_trans write_output_buffer_le)
  have "\<exists>b. t = t2\<lparr> buffer := b \<rparr> \<and> buffer_le b2 b"
  proof (cases a)
    case None
    with r show ?thesis by (auto simp: buffer_le_refl)
  next
    case (Some a')
    obtain h n where g: "getLength a' = (h, n)" by (cases "getLength a'") auto
    show ?thesis
    proof (cases "FAILED h")
      case True
      with r Some g show ?thesis by (auto simp: buffer_le_refl)
    next
      case False
      with r Some g have "Option.bind (write_attributes a' 0 n b2) (\<lambda>(hr, b).
                  Some (hr, t2\<lparr> buffer := b \<rparr>)) = Some (hr, t)"
        by simp
      then obtain x where wa: "write_attributes a' 0 n b2 = Some x"
        and x: "(case x of (hr, b) \<Rightarrow> Some (hr, t2\<lparr> buffer := b \<rparr>)) = Some (hr, t)"
        by (rule bind_SomeE)
      obtain h' b' where xx: "x = (h', b')" by (cases x) auto
      with wa have "buffer_le b2 b'" by (blast dest: write_attributes_le)
      with x xx show ?thesis by auto
    qed
  qed
  then obtain b where t: "t = t2\<lparr> buffer := b \<rparr>" and le: "buffer_le b2 b"
    by blast
  have "extends t2 t"
    unfolding t using le2 le by (blast intro: extends_buffer buffer_le_trans)
  with e2 show ?thesis by (rule extends_trans)
qed

lemma endElement_extends:
  assumes "mxwriter_saxcontent_endElement This u nu l nl q nq = Some (hr, t)"
  shows "extends This t"
proof (cases "(u = None \<or> l = None \<or> q = None) \<and> class_version This \<noteq> MSXML6")
  case True
  with assms show ?thesis
    by (simp add: mxwriter_saxcontent_endElement_def extends_refl)
next
  case False
  with assms obtain b where
    w: "(if (case (element This, q) of
                     (Some e, Some q') \<Rightarrow> strncmpW e q' nq = 0
                   | _ \<Rightarrow> False)
               then write_output_buffer (buffer This) (Some (wstr ''/>'')) 2
               else Option.bind (write_output_buffer (buffer This) (Some (wstr ''</'')) 2) (\<lambda>b.
                 Option.bind (write_output_buffer b q nq) (\<lambda>b.
                 write_output_buffer b (Some (wstr ''>'')) 1))) = Some b"
    and t: "t = This\<lparr> buffer := b, element := None \<rparr>"
    unfolding mxwriter_saxcontent_endElement_def
    by (auto simp: set_element_name_def bind_eq_Some_conv)
  from w have "buffer_le (buffer This) b"
    by (auto simp: bind_eq_Some_conv split: if_splits
        dest!: write_output_buffer_le intro: buffer_le_trans)
  then show ?thesis
    unfolding t by (simp add: extends_def)
qed

lemma characters_extends:
  assumes "mxwriter_saxcontent_characters This c n = Some (hr, t)"
  shows "extends This t"
proof (cases c)
  case None
  with assms show ?thesis
    by (simp add: mxwriter_saxcontent_characters_def extends_refl)
next
  case (Some cs)
  with assms obtain t1 t2 where
    c: "close_element_starttag This = Some t1"
    and s: "set_element_name t1 None 0 = Some t2"
    and r: "(if n \<noteq> 0 then Option.bind (write_output_buffer (buffer t2) (Some cs) n) (\<lambda>b.
              Some (S_OK, t2\<lparr> buffer := b \<rparr>))
            else Some (S_OK, t2)) = Some (hr, t)"
    unfolding mxwriter_saxcontent_characters_def
    by (auto simp: bind_eq_Some_conv)
  have e2: "extends This t2"
    using c s by (blast intro: extends_trans close_element_starttag_extends
        set_element_name_extends)
  from r have "extends t2 t"
    by (auto simp: extends_refl bind_eq_Some_conv split: if_splits
        intro!: extends_buffer write_output_buffer_le)
  with e2 show ?thesis by (rule extends_trans)
qed

lemma startDocument_offset_ok:
  assumes "offset_ok This" and "mxwriter_saxcontent_startDocument This = Some (hr, t)"
  shows "offset_ok t"
proof -
  from startDocument_result [of This] assms(2) have
    e: "encoding t = encoding This"
    and d: "dest_written t = (if prop_changed This then 0 else dest_written This)"
    and a: "buffer_appended
           (if prop_changed This then buffer (reset_output_buffer This) else buffer This)
           (if props This MXWriter_OmitXmlDecl = VARIANT_TRUE then [] else prolog_native This)
           (if props This MXWriter_OmitXmlDecl = VARIANT_TRUE then [] else prolog_encoded This)
           (buffer t)"
    by auto
  show ?thesis
  proof (cases "prop_changed This")
    case True
    with d show ?thesis by (simp add: offset_ok_def)
  next
    case False
    with a have "buffer_le (buffer This) (buffer t)"
      by (simp add: buffer_appended_def buffer_le_def)
    with e d False have "extends This t" by (simp add: extends_def)
    with assms(1) show ?thesis by (rule offset_ok_extends)
  qed
qed

lemma exec_offset_ok:
  assumes "offset_ok This" and "reply_within c This" and "exec c This = Some (hr, t)"
  shows "offset_ok t"
proof (cases c)
  case (Put_output d reply)
  with assms obtain hr1 t1 where
    f: "flush_output_buffer This reply = Some (hr1, t1)"
    and r: "(if FAILED hr1 then Some (hr1, t1)
       else (case d of
               VT_EMPTY \<Rightarrow> Some (S_OK, reset_output_buffer (t1\<lparr> dest := None \<rparr>))
             | VT_UNKNOWN (Some stream) \<Rightarrow>
                 Some (S_OK, (reset_output_buffer t1)\<lparr> dest := Some stream \<rparr>)
             | VT_UNKNOWN None \<Rightarrow> Some (E_NOTIMPL, t1)
             | VT_OTHER \<Rightarrow> Some (E_NOTIMPL, t1))) = Some (hr, t)"
    by (auto simp: mxwriter_put_output_def split: bind_splits)
  have "offset_ok t1"
    using assms(1,2) f Put_output by (auto intro: flush_output_buffer_offset_ok)
  with r show ?thesis
    by (auto simp: offset_ok_reset offset_ok_reset_dest
        split: if_splits VARIANT.splits option.splits)
next
  case Get_output
  show ?thesis
  proof (cases "dest This")
    case None
    with assms(3) Get_output obtain hr1 t1 where
      f: "flush_output_buffer This (S_OK, 0) = Some (hr1, t1)" and t: "t = t1"
      by (auto simp: mxwriter_get_output_def split: bind_splits if_splits)
    from assms(1) _ f have "offset_ok t1"
      by (rule flush_output_buffer_offset_ok) simp
    with t show ?thesis by simp
  next
    case (Some stm)
    with assms Get_output show ?thesis
      by (auto simp: mxwriter_get_output_def)
  qed
next
  case (Put_encoding e reply)
  show ?thesis
  proof (cases "strcmpW e utf16W = 0 \<or> strcmpW e utf8W = 0")
    case False
    with assms Put_encoding show ?thesis
      by (auto simp: mxwriter_put_encoding_def)
  next
    case True
    with assms(3) Put_encoding obtain hr1 t1 where
      f: "flush_output_buffer This reply = Some (hr1, t1)"
      and r: "(if FAILED hr1 then Some (hr1, t1)
          else Some (S_OK, reset_output_buffer (t1\<lparr> encoding := xmlParseCharEncoding e \<rparr>)))
            = Some (hr, t)"
      by (auto simp: mxwriter_put_encoding_def split: bind_splits)
    have "offset_ok t1"
      using assms(1,2) f Put_encoding by (auto intro: flush_output_buffer_offset_ok)
    with r show ?thesis
      by (auto simp: offset_ok_reset split: if_splits)
  qed
next
  case (Put_byteOrderMark v)
  with assms show ?thesis
    by (auto simp: mxwriter_put_byteOrderMark_def writer_set_property_def offset_ok_def
        flush_source_def)
next
  case (Put_indent v)
  with assms show ?thesis
    by (auto simp: mxwriter_put_indent_def writer_set_property_def offset_ok_def
        flush_source_def)
next
  case (Put_standalone v)
  with assms show ?thesis
    by (auto simp: mxwriter_put_standalone_def writer_set_property_def offset_ok_def
        flush_source_def)
next
  case (Put_omitXMLDeclaration v)
  with assms show ?thesis
    by (auto simp: mxwriter_put_omitXMLDeclaration_def writer_set_property_def offset_ok_def
        flush_source_def)
next
  case (Put_disableOutputEscaping v)
  with assms show ?thesis
    by (auto simp: mxwriter_put_disableOutputEscaping_def writer_set_property_def offset_ok_def
        flush_source_def)
next
  case (Put_version v)
  with assms show ?thesis
    by (auto simp: mxwriter_put_version_def offset_ok_def flush_source_def
        split: option.splits)
next
  case (Flush reply)
  with assms show ?thesis
    by (auto simp: mxwriter_flush_def intro: flush_output_buffer_offset_ok)
next
  case StartDocument
  with assms show ?thesis
    by (auto intro: startDocument_offset_ok)
next
  case (EndDocument reply)
  let ?s = "This\<lparr> prop_changed := False \<rparr>"
  have 1: "offset_ok ?s"
    using assms(1) by (auto simp: offset_ok_def flush_source_def split: if_splits)
  have "offered ?s = offered This"
    by (auto simp: offered_def close_element_starttag_def flush_source_def
        split: option.splits)
  with assms(2) EndDocument have 2: "snd reply \<le> offered ?s" by simp
  from assms(3) EndDocument have 3: "flush_output_buffer ?s reply = Some (hr, t)"
    by (simp add: mxwriter_saxcontent_endDocument_def)
  from 1 2 3 show ?thesis by (rule flush_output_buffer_offset_ok)
next
  case (StartElement u nu l nl q nq a)
  with assms show ?thesis
    by (auto intro: offset_ok_extends startElement_extends)
next
  case (EndElement u nu l nl q nq)
  with assms show ?thesis
    by (auto intro: offset_ok_extends endElement_extends)
next
  case (Characters cs n)
  with assms show ?thesis
    by (auto intro: offset_ok_extends characters_extends)
qed

lemma reachable_offset_ok: "reachable This \<Longrightarrow> offset_ok This"
proof (induction rule: reachable.induct)
  case (created v hr This)
  then show ?case
    by (auto simp: MXWriter_create_eq offset_ok_def)
next
  case (called This c hr t)
  then show ?case by (blast intro: exec_offset_ok)
qed

lemma fatal_branch_E_FAIL:
  "fatal_branch This \<Longrightarrow> write_data_to_stream This reply = (E_FAIL, This)"
  by (auto simp: fatal_branch_def write_data_to_stream_def Let_def split: option.splits)

text \<open>
  C6. In every state reached from a new writer by calls whose stream replies report no
  more bytes than were offered, the sink offset is at most the written count of the
  buffer chosen by the encoding; and when a flush in such a state reaches the sanity
  check of \<^verbatim>\<open>write_data_to_stream\<close> (after closing the pending tag), the branch that
  returns \<open>E_FAIL\<close> is not taken.
\<close>

theorem offset_never_exceeds_written:
  assumes "reachable This"
  shows "dest_written This \<le> written (flush_source This)
       \<and> (\<exists>t. close_element_starttag This = Some t \<and> \<not> fatal_branch (t\<lparr> element := None \<rparr>))"
proof -
  have ok: "offset_ok This" using assms by (rule reachable_offset_ok)
  obtain b where c: "close_element_starttag This = Some (This\<lparr> buffer := b \<rparr>)"
    using close_element_starttag_Some by blast
  then have "extends This (This\<lparr> buffer := b \<rparr>)" by (rule close_element_starttag_extends)
  with ok have "offset_ok (This\<lparr> buffer := b \<rparr>)" by (rule offset_ok_extends)
  then have "\<not> fatal_branch (This\<lparr> buffer := b, element := None \<rparr>)"
    by (auto simp: fatal_branch_def offset_ok_def flush_source_def split: option.splits if_splits)
  with ok c show ?thesis by (auto simp: offset_ok_def)
qed

theorem offset_never_exceeds_written_witness:
  "replies_within [Put_output (VT_UNKNOWN (Some new_stream)) (S_OK, 0),
                   StartElement (Some []) 0 (Some []) 0 (Some (wstr ''a'')) 1 None,
                   Flush (S_OK, 3)] new_writer
   \<and> dest_written (the (run_calls [Put_output (VT_UNKNOWN (Some new_stream)) (S_OK, 0),
                   StartElement (Some []) 0 (Some []) 0 (Some (wstr ''a'')) 1 None,
                   Flush (S_OK, 3)] new_writer)) = 3
   \<and> written (flush_source (the (run_calls [Put_output (VT_UNKNOWN (Some new_stream)) (S_OK, 0),
                   StartElement (Some []) 0 (Some []) 0 (Some (wstr ''a'')) 1 None,
                   Flush (S_OK, 3)] new_writer))) = 6
   \<and> dest_written (the (run_calls [Put_output (VT_UNKNOWN (Some new_stream)) (S_OK, 0),
                   StartElement (Some []) 0 (Some []) 0 (Some (wstr ''a'')) 1 None,
                   Flush (S_OK, 3)] new_writer))
       \<le> written (flush_source (the (run_calls [Put_output (VT_UNKNOWN (Some new_stream)) (S_OK, 0),
                   StartElement (Some []) 0 (Some []) 0 (Some (wstr ''a'')) 1 None,
                   Flush (S_OK, 3)] new_writer)))"
proof -
  let ?cs = "[Put_output (VT_UNKNOWN (Some new_stream)) (S_OK, 0),
                   StartElement (Some []) 0 (Some []) 0 (Some (wstr ''a'')) 1 None,
                   Flush (S_OK, 3)]"
  have w: "replies_within ?cs new_writer"
    by (simp add: eval_defs offered_def)
  have n: "\<not> Option.is_none (run_calls ?cs new_writer)"
    by (simp add: eval_defs)
  have r: "reachable (the (run_calls ?cs new_writer))"
    using reachable_new_writer w run_calls_the [OF n] by (rule reachable_run_calls)
  have d: "dest_written (the (run_calls ?cs new_writer)) = 3"
    and f: "written (flush_source (the (run_calls ?cs new_writer))) = 6"
    by (simp_all add: eval_defs)
  from offset_never_exceeds_written [OF r] w d f show ?thesis by blast
qed

section \<open>Flushing twice\<close>

text \<open>
  C5, as stated: when nothing was appended since the previous flush and no tag is
  pending, a second flush transfers no bytes. It may: the stream answers each write with
  the count it took, and a short (or failed) write leaves the rest to the next flush.
  Here the first flush offers the four bytes of \<open>ab\<close>, the stream takes two, and the
  second flush, with nothing appended in between, sends the other two.
\<close>

theorem flush_after_short_write:
  "map_option (\<lambda>t. (element t, map_option stream_writes (dest t)))
     (run_calls
        [Put_output (VT_UNKNOWN (Some new_stream)) (S_OK, 0),
         Characters (Some (wstr ''ab'')) 2,
         Flush (S_OK, 2),
         Flush (S_OK, 2)] new_writer)
   = Some (None, Some [[0x61, 0, 0x62, 0], [0x62, 0]])"
  by (simp add: eval_defs)

text \<open>
  C5, amended. In a state with a stream attached, no tag pending and the sink offset
  equal to the written count (the previous flush delivered everything buffered), a
  flush transfers no bytes: when the encoding is UTF-8 it makes exactly one call to the
  stream, with an empty payload, and for every other encoding it makes no call and
  leaves the writer as it is.
\<close>

theorem flush_with_nothing_pending:
  assumes "dest This = Some stm" and "element This = None"
    and "dest_written This = written (flush_source This)"
  shows "mxwriter_flush This reply =
     Some (if encoding This = XML_CHAR_ENCODING_UTF8
           then (fst reply,
                 if FAILED (fst reply) then This\<lparr> dest := Some (IStream_Write stm []) \<rparr>
                 else This\<lparr> dest := Some (IStream_Write stm []),
                           dest_written := dest_written This + snd reply \<rparr>)
           else (S_OK, This))"
proof -
  have e: "This\<lparr> element := None \<rparr> = This"
    using assms(2) by (cases This) simp
  have f: "mxwriter_flush This reply = Some (write_data_to_stream This reply)"
    using assms(2) by (simp add: mxwriter_flush_def flush_output_buffer_def
        close_element_starttag_def set_element_name_def e)
  show ?thesis
    unfolding f using assms(1,3)
    by (cases reply) (simp add: write_data_to_stream_def Let_def)
qed

theorem flush_with_nothing_pending_witness:
  "dest (the (run_calls [Put_output (VT_UNKNOWN (Some new_stream)) (S_OK, 0),
                         Characters (Some (wstr ''ab'')) 2, Flush (S_OK, 4)] new_writer))
     = Some \<lparr> stream_writes = [[0x61, 0, 0x62, 0]] \<rparr>
   \<and> mxwriter_flush
        (the (run_calls [Put_output (VT_UNKNOWN (Some new_stream)) (S_OK, 0),
                         Characters (Some (wstr ''ab'')) 2, Flush (S_OK, 4)] new_writer)) (S_OK, 0)
     = Some (S_OK, the (run_calls [Put_output (VT_UNKNOWN (Some new_stream)) (S_OK, 0),
                         Characters (Some (wstr ''ab'')) 2, Flush (S_OK, 4)] new_writer))
   \<and> map_option (\<lambda>(hr, t). map_option stream_writes (dest t))
        (mxwriter_flush
          (the (run_calls [Put_encoding (wstr ''UTF-8'') (S_OK, 0),
                           Put_output (VT_UNKNOWN (Some new_stream)) (S_OK, 0),
                           Characters (Some (wstr ''ab'')) 2, Flush (S_OK, 2)] new_writer))
          (S_OK, 0))
     = Some (Some [[0x61, 0x62], []])"
proof -
  let ?a = "the (run_calls [Put_output (VT_UNKNOWN (Some new_stream)) (S_OK, 0),
                         Characters (Some (wstr ''ab'')) 2, Flush (S_OK, 4)] new_writer)"
  let ?b = "the (run_calls [Put_encoding (wstr ''UTF-8'') (S_OK, 0),
                           Put_output (VT_UNKNOWN (Some new_stream)) (S_OK, 0),
                           Characters (Some (wstr ''ab'')) 2, Flush (S_OK, 2)] new_writer)"
  have a1: "dest ?a = Some \<lparr> stream_writes = [[0x61, 0, 0x62, 0]] \<rparr>" by (simp add: eval_defs)
  have a2: "element ?a = None" by (simp add: eval_defs)
  have a3: "dest_written ?a = written (flush_source ?a)" by (simp add: eval_defs)
  have a4: "encoding ?a = XML_CHAR_ENCODING_UTF16LE" by (simp add: eval_defs)
  have b1: "dest ?b = Some \<lparr> stream_writes = [[0x61, 0x62]] \<rparr>" by (simp add: eval_defs)
  have b2: "element ?b = None" by (simp add: eval_defs)
  have b3: "dest_written ?b = written (flush_source ?b)" by (simp add: eval_defs)
  have b4: "encoding ?b = XML_CHAR_ENCODING_UTF8" by (simp add: eval_defs)
  from flush_with_nothing_pending [OF a1 a2 a3, of "(S_OK, 0)"] a4
  have A: "mxwriter_flush ?a (S_OK, 0) = Some (S_OK, ?a)" by simp
  from flush_with_nothing_pending [OF b1 b2 b3, of "(S_OK, 0)"] b4
  have B: "map_option (\<lambda>(hr, t). map_option stream_writes (dest t)) (mxwriter_flush ?b (S_OK, 0))
     = Some (Some [[0x61, 0x62], []])"
    by (simp add: not_FAILED_S_OK IStream_Write_def)
  from a1 A B show ?thesis by blast
qed

section \<open>Character data and end tags\<close>

text \<open>
  What \<^verbatim>\<open>characters\<close> does with a text of \<open>nchars\<close> units: it closes the pending start
  tag, if any, and appends the units as they are, whatever the disable-escaping
  property holds.
\<close>

lemma characters_appends_verbatim:
  assumes "nchars = int (length cs)"
  shows "\<exists>t. mxwriter_saxcontent_characters This (Some cs) nchars = Some (S_OK, t)
      \<and> element t = None
      \<and> buffer_appended (buffer This)
           ((if element This = None then [] else wstr ''>'') @ cs)
           (utf8_encode (if element This = None then [] else wstr ''>'') @ utf8_encode cs)
           (buffer t)"
proof -
  let ?pre = "if element This = None then [] else wstr ''>''"
  have "\<exists>t1. close_element_starttag This = Some t1 \<and> element t1 = element This
      \<and> dest t1 = dest This
      \<and> buffer_appended (buffer This) ?pre (utf8_encode ?pre) (buffer t1)"
  proof (cases "element This")
    case None
    then show ?thesis
      by (simp add: close_element_starttag_def buffer_appended_refl)
  next
    case (Some e)
    obtain b where "write_output_buffer (buffer This) (Some (wstr ''>'')) 1 = Some b"
      and "buffer_appended (buffer This) (wstr ''>'') (utf8_encode (wstr ''>'')) b"
      using write_static_appended [of 1 "wstr ''>''" "buffer This"] by (auto simp: wstr_def)
    with Some show ?thesis
      by (simp add: close_element_starttag_def)
  qed
  then obtain t1 where c: "close_element_starttag This = Some t1"
    and a1: "buffer_appended (buffer This) ?pre (utf8_encode ?pre) (buffer t1)"
    by blast
  let ?t2 = "t1\<lparr> element := None \<rparr>"
  obtain b where w: "write_output_buffer (buffer t1) (Some cs) nchars = Some b"
    and a2: "buffer_appended (buffer t1) cs (utf8_encode cs) b"
    using write_static_appended [OF assms] by blast
  show ?thesis
  proof (cases "nchars = 0")
    case True
    with assms have "cs = []" by simp
    with True c a1 show ?thesis
      by (simp add: mxwriter_saxcontent_characters_def set_element_name_def)
  next
    case False
    with c w have "mxwriter_saxcontent_characters This (Some cs) nchars
        = Some (S_OK, ?t2\<lparr> buffer := b \<rparr>)"
      by (simp add: mxwriter_saxcontent_characters_def set_element_name_def)
    moreover have "buffer_appended (buffer This) (?pre @ cs) (utf8_encode ?pre @ utf8_encode cs) b"
      using a1 a2 by (rule buffer_appended_trans)
    ultimately show ?thesis by simp
  qed
qed

text \<open>
  C1. The claim: \<^verbatim>\<open>characters\<close> appends the escaped form of its text unless escaping is
  disabled, and the example sequence yields \<open>x&lt;y\<close> between the tags. The code:
  \<^verbatim>\<open>characters\<close> passes its text to \<^verbatim>\<open>write_output_buffer\<close> as it is, and the
  disable-escaping property is never read. On a new writer (escaping not disabled) the
  example sequence produces \<open>x<y\<close> unescaped, while the attribute value goes through
  the escaper.
\<close>

theorem example_sequence_unescaped:
  \<open>props new_writer MXWriter_DisableEscaping = VARIANT_FALSE
   \<and> Option.bind
       (run_calls
          [StartDocument,
           StartElement (Some []) 0 (Some []) 0 (Some (wstr ''a'')) 1 (Some example_attributes),
           Characters (Some (wstr ''x<y'')) 3,
           EndElement (Some []) 0 (Some []) 0 (Some (wstr ''a'')) 1,
           EndDocument (S_OK, 0)] new_writer)
       (\<lambda>t. map_option (\<lambda>((hr, v), t'). v) (mxwriter_get_output t))
     = Some (Some (wstr ''<?xml version="1.0" encoding="UTF-16" standalone="no"?>''
                    @ [0x0D, 0x0A] @ wstr ''<a id="1">x<y</a>''))\<close>
  by (simp add: eval_defs example_attributes_def write_attributes.simps get_escaped_string_def
      default_alloc_def grow_thresh_def ltW_def ampW_def quotW_def gtW_def)

text \<open>
  C2. The claim: \<^verbatim>\<open>endElement\<close> emits \<open>/>\<close> only when the pending name and the incoming
  name have the same length and content. The code compares with \<^verbatim>\<open>strncmpW\<close> over the
  incoming length only: with \<open>abc\<close> pending, the end of element \<open>ab\<close> (length 2)
  self-closes the tag, and the output is \<open><abc/>\<close>.
\<close>

theorem end_element_prefix_self_closes:
  \<open>map_option element
       (run_calls [StartElement (Some []) 0 (Some []) 0 (Some (wstr ''abc'')) 3 None] new_writer)
     = Some (Some (wstr ''abc''))
   \<and> Option.bind
       (run_calls
          [StartElement (Some []) 0 (Some []) 0 (Some (wstr ''abc'')) 3 None,
           EndElement (Some []) 0 (Some []) 0 (Some (wstr ''ab'')) 2] new_writer)
       (\<lambda>t. map_option (\<lambda>((hr, v), t'). v) (mxwriter_get_output t))
     = Some (Some (wstr ''<abc/>''))\<close>
  by (simp add: eval_defs)

end
